theory Spec2Isabelle
  imports Complex_Main
begin

text \<open>
  A feed-forward network with logistic units, trained by gradient descent on half the
  squared error: the functions \<open>initialize_model\<close>, \<open>sigma\<close>, \<open>sigma_prime\<close>, \<open>loss\<close>,
  \<open>loss_prime\<close>, \<open>forward\<close>, \<open>backward\<close> and \<open>update\<close> of the notebook, first as the Python
  computes them, then the layer equations they are meant to implement, and the proofs that
  the two agree.  The network is computed in exact arithmetic; \<open>sigma\<close> and \<open>sigma_prime\<close> are
  given a second time in float64, where their values differ from the exact ones.
\<close>

section \<open>NumPy arrays and Python containers\<close>

text \<open>
  The notebook computes with two-dimensional NumPy arrays of floats.  An array is modelled
  by its shape and its entries, stored row by row; entries are real numbers, so arithmetic
  is exact.  Everything the notebook builds is made by \<open>mk\<close>, whose data agrees with its shape.
\<close>

datatype ndarray = NDArray (nrows: nat) (ncols: nat) (entries: "real list list")

datatype error = KeyError | IndexError | ValueError | TypeError | MemoryError

text \<open>
  An exception ends the computation: \<open>ebind m f\<close> runs \<open>f\<close> on the value of \<open>m\<close>, or passes
  on the error that \<open>m\<close> raised.
\<close>

definition ebind :: "error + 'a \<Rightarrow> ('a \<Rightarrow> error + 'b) \<Rightarrow> error + 'b" where
  "ebind m f = (case m of Inl e \<Rightarrow> Inl e | Inr v \<Rightarrow> f v)"

definition shape :: "ndarray \<Rightarrow> nat \<times> nat" where
  "shape A = (nrows A, ncols A)"

definition el :: "ndarray \<Rightarrow> nat \<Rightarrow> nat \<Rightarrow> real" where
  "el A i j = entries A ! i ! j"

definition mk :: "nat \<Rightarrow> nat \<Rightarrow> (nat \<Rightarrow> nat \<Rightarrow> real) \<Rightarrow> ndarray" where
  "mk r c f = NDArray r c (map (\<lambda>i. map (\<lambda>j. f i j) [0..<c]) [0..<r])"

text \<open>A universal function applied to one array works entry by entry and keeps the shape.\<close>

definition amap :: "(real \<Rightarrow> real) \<Rightarrow> ndarray \<Rightarrow> ndarray" where
  "amap f A = mk (nrows A) (ncols A) (\<lambda>i j. f (el A i j))"

text \<open>\<open>A.T\<close>\<close>

definition transpose_nd :: "ndarray \<Rightarrow> ndarray" where
  "transpose_nd A = mk (ncols A) (nrows A) (\<lambda>i j. el A j i)"

text \<open>\<open>np.ones((r, c))\<close>\<close>

definition ones :: "nat \<Rightarrow> nat \<Rightarrow> ndarray" where
  "ones r c = mk r c (\<lambda>i j. 1)"

text \<open>
  \<open>A @ B\<close> and \<open>np.dot(A, B)\<close> on two-dimensional arrays: the matrix product, which raises
  \<open>ValueError\<close> when the inner dimensions differ.
\<close>

definition matmul :: "ndarray \<Rightarrow> ndarray \<Rightarrow> error + ndarray" where
  "matmul A B =
     (if ncols A = nrows B
      then Inr (mk (nrows A) (ncols B) (\<lambda>i j. \<Sum>k<ncols A. el A i k * el B k j))
      else Inl ValueError)"

text \<open>
  Binary arithmetic on two arrays broadcasts: along each axis the two lengths must be equal
  or one of them must be 1, and an axis of length 1 is repeated.  Otherwise NumPy raises
  \<open>ValueError\<close>.
\<close>

definition bdim :: "nat \<Rightarrow> nat \<Rightarrow> nat option" where
  "bdim m n = (if m = n then Some m else if m = 1 then Some n else if n = 1 then Some m else None)"

definition bidx :: "nat \<Rightarrow> nat \<Rightarrow> nat" where
  "bidx len i = (if len = 1 then 0 else i)"

definition broadcast2 :: "(real \<Rightarrow> real \<Rightarrow> real) \<Rightarrow> ndarray \<Rightarrow> ndarray \<Rightarrow> error + ndarray" where
  "broadcast2 f A B =
     (case bdim (nrows A) (nrows B) of
        None \<Rightarrow> Inl ValueError
      | Some r \<Rightarrow>
         (case bdim (ncols A) (ncols B) of
            None \<Rightarrow> Inl ValueError
          | Some c \<Rightarrow>
              Inr (mk r c (\<lambda>i j. f (el A (bidx (nrows A) i) (bidx (ncols A) j))
                                     (el B (bidx (nrows B) i) (bidx (ncols B) j))))))"

definition add :: "ndarray \<Rightarrow> ndarray \<Rightarrow> error + ndarray" where
  "add A B = broadcast2 (\<lambda>a b. a + b) A B"

definition sub :: "ndarray \<Rightarrow> ndarray \<Rightarrow> error + ndarray" where
  "sub A B = broadcast2 (\<lambda>a b. a - b) A B"

definition mul :: "ndarray \<Rightarrow> ndarray \<Rightarrow> error + ndarray" where
  "mul A B = broadcast2 (\<lambda>a b. a * b) A B"

text \<open>\<open>A.sum()\<close>: the sum of all entries.\<close>

definition np_sum :: "ndarray \<Rightarrow> real" where
  "np_sum A = sum_list (map sum_list (entries A))"

subsection \<open>Lists and dictionaries\<close>

text \<open>
  \<open>xs[i]\<close> for an integer \<open>i\<close>: a negative index counts from the end, and an index outside
  the list raises \<open>IndexError\<close>.
\<close>

definition getitem :: "'a list \<Rightarrow> int \<Rightarrow> error + 'a" where
  "getitem xs i =
     (if 0 \<le> i \<and> i < int (length xs) then Inr (xs ! nat i)
      else if i < 0 \<and> - int (length xs) \<le> i then Inr (xs ! nat (i + int (length xs)))
      else Inl IndexError)"

text \<open>
  \<open>xs[start:stop:-1]\<close>, a slice that walks backwards.  A bound that is given is first
  shifted by the length when negative and then clipped into \<open>-1 .. len-1\<close>; a missing
  start is the last index and a missing stop lies before index 0.  The slice holds the
  entries at \<open>start, start-1, ...\<close> down to, and without, \<open>stop\<close>; it never raises.
\<close>

definition clip_back :: "int \<Rightarrow> int \<Rightarrow> int" where
  "clip_back n i =
     (if i < 0 then (if i + n < 0 then - 1 else i + n)
      else if i \<ge> n then n - 1 else i)"

definition slice_back :: "'a list \<Rightarrow> int option \<Rightarrow> int option \<Rightarrow> 'a list" where
  "slice_back xs start stop =
     (let n = int (length xs);
          hi = (case start of None \<Rightarrow> n - 1 | Some i \<Rightarrow> clip_back n i);
          lo = (case stop of None \<Rightarrow> - 1 | Some j \<Rightarrow> clip_back n j)
      in map (\<lambda>k. xs ! nat k) (rev [lo + 1 .. hi]))"

text \<open>
  The model is a \<open>dict\<close> with string keys.  The values the notebook stores are lists of
  arrays and, under \<open>'nlayers'\<close>, an integer.
\<close>

datatype pyval = PInt int | PList "ndarray list"

type_synonym model = "string \<rightharpoonup> pyval"

text \<open>\<open>model[key]\<close> raises \<open>KeyError\<close> for a key that is not there.\<close>

definition lookup :: "model \<Rightarrow> string \<Rightarrow> error + pyval" where
  "lookup model key = (case model key of None \<Rightarrow> Inl KeyError | Some v \<Rightarrow> Inr v)"

text \<open>Iterating, indexing or slicing an integer raises \<open>TypeError\<close>.\<close>

definition as_list :: "pyval \<Rightarrow> error + ndarray list" where
  "as_list v = (case v of PInt n \<Rightarrow> Inl TypeError | PList xs \<Rightarrow> Inr xs)"

definition getitem_val :: "pyval \<Rightarrow> int \<Rightarrow> error + ndarray" where
  "getitem_val v i = (case v of PInt n \<Rightarrow> Inl TypeError | PList xs \<Rightarrow> getitem xs i)"

definition slice_back_val :: "pyval \<Rightarrow> int option \<Rightarrow> int option \<Rightarrow> error + ndarray list" where
  "slice_back_val v start stop =
     (case v of PInt n \<Rightarrow> Inl TypeError | PList xs \<Rightarrow> Inr (slice_back xs start stop))"

text \<open>
  \<open>np.random.randn(d0, d1)\<close> reads and changes the state of NumPy: the samples that the
  generator will still produce, and the number of array entries (of 8 bytes) that the
  process can still allocate.  It raises \<open>ValueError\<close> for a negative dimension, and also when
  the size in bytes of the array, with dimensions 0 left out of the product, is beyond the
  largest index \<open>2^63 - 1\<close>; it raises \<open>MemoryError\<close> when the entries do not fit in memory.
  Otherwise it draws \<open>d0 * d1\<close> samples, row by row.
\<close>

datatype np_state = NpState (samples: "nat \<Rightarrow> real") (free: nat)

definition max_intp :: int where
  "max_intp = 2 ^ 63 - 1"

definition nonzero_dim :: "int \<Rightarrow> int" where
  "nonzero_dim d = (if d = 0 then 1 else d)"

definition randn :: "int \<Rightarrow> int \<Rightarrow> np_state \<Rightarrow> error + (ndarray \<times> np_state)" where
  "randn d0 d1 s =
     (if d0 < 0 \<or> d1 < 0 then Inl ValueError
      else if 8 * (nonzero_dim d0 * nonzero_dim d1) > max_intp then Inl ValueError
      else if nat d0 * nat d1 > free s then Inl MemoryError
      else Inr (mk (nat d0) (nat d1) (\<lambda>i j. samples s (i * nat d1 + j)),
                NpState (\<lambda>n. samples s (n + nat d0 * nat d1)) (free s - nat d0 * nat d1)))"


section \<open>Activation and loss\<close>

text \<open>
  \<open>sigma\<close> is \<open>np.where(x>=0, 1/(1+np.exp(-x)), 1 - 1/(1+np.exp(x)))\<close>: at each entry the
  first formula where the entry is non-negative, the second elsewhere.  \<open>sigma_elem\<close> is its
  value at one entry in exact arithmetic.
\<close>

definition sigma_elem :: "real \<Rightarrow> real" where
  "sigma_elem v = (if v \<ge> 0 then 1 / (1 + exp (- v)) else 1 - 1 / (1 + exp v))"

definition sigma :: "ndarray \<Rightarrow> ndarray" where
  "sigma x = amap sigma_elem x"

text \<open>\<open>sigma_prime\<close> is \<open>sigma(x)*(1-sigma(x))\<close>, a product of two arrays.\<close>

definition sigma_prime :: "ndarray \<Rightarrow> error + ndarray" where
  "sigma_prime x = mul (sigma x) (amap (\<lambda>v. 1 - v) (sigma x))"

text \<open>\<open>loss\<close> is \<open>0.5 * np.square(yhat-y).sum()\<close> and \<open>loss_prime\<close> is \<open>yhat - y\<close>.\<close>

definition loss :: "ndarray \<Rightarrow> ndarray \<Rightarrow> error + real" where
  "loss yhat y =
     (case sub yhat y of
        Inl e \<Rightarrow> Inl e
      | Inr d \<Rightarrow> Inr (0.5 * np_sum (amap (\<lambda>v. v\<^sup>2) d)))"

definition loss_prime :: "ndarray \<Rightarrow> ndarray \<Rightarrow> error + ndarray" where
  "loss_prime yhat y = sub yhat y"

subsection \<open>The same in float64\<close>

text \<open>
  The arrays of the notebook hold float64 numbers, and each operation of NumPy rounds its
  exact result to the nearest float64, ties to the even significand.  \<open>fl\<close> is this
  rounding, for results below \<open>2^1024\<close> in size: a float64 is a multiple of the \<open>quantum\<close>
  of its binade by an integer below \<open>2^53\<close>, with quantum \<open>2^-1074\<close> for the subnormal
  numbers.  \<open>sigma_f64\<close> and \<open>sigma_prime_f64\<close> are \<open>sigma\<close> and \<open>sigma_prime\<close> at one float64 entry
  with every operation rounded; \<open>np.exp\<close> is taken as the rounded exponential.  The branch
  that \<open>np.where\<close> selects never exceeds 2 in size, so it never overflows; the value of the
  other branch is discarded.
\<close>

definition round_even :: "real \<Rightarrow> int" where
  "round_even y =
     (if y - of_int \<lfloor>y\<rfloor> < 1 / 2 then \<lfloor>y\<rfloor>
      else if y - of_int \<lfloor>y\<rfloor> > 1 / 2 then \<lfloor>y\<rfloor> + 1
      else if even \<lfloor>y\<rfloor> then \<lfloor>y\<rfloor> else \<lfloor>y\<rfloor> + 1)"

definition quantum :: "real \<Rightarrow> real" where
  "quantum r = 2 powr of_int (max \<lfloor>log 2 \<bar>r\<bar>\<rfloor> (- 1022) - 52)"

definition fl :: "real \<Rightarrow> real" where
  "fl r = (if r = 0 then 0 else quantum r * of_int (round_even (r / quantum r)))"

definition sigma_f64 :: "real \<Rightarrow> real" where
  "sigma_f64 x =
     (if x \<ge> 0 then fl (1 / fl (1 + fl (exp (- x))))
      else fl (1 - fl (1 / fl (1 + fl (exp x)))))"

definition sigma_prime_f64 :: "real \<Rightarrow> real" where
  "sigma_prime_f64 x = fl (sigma_f64 x * fl (1 - sigma_f64 x))"


section \<open>Initialisation\<close>

text \<open>
  \<open>initialize_model\<close>: the loop \<open>for l in range(L)\<close> draws \<open>W\<close> and \<open>b\<close> for each layer and
  appends them.
\<close>

fun initialize_loop ::
  "int list \<Rightarrow> nat list \<Rightarrow> ndarray list \<Rightarrow> ndarray list \<Rightarrow> np_state
    \<Rightarrow> error + (ndarray list \<times> ndarray list \<times> np_state)" where
  "initialize_loop dimensions [] weights biases g = Inr (weights, biases, g)"
| "initialize_loop dimensions (l # ls) weights biases g =
     ebind (getitem dimensions (int l + 1)) (\<lambda>d1.
     ebind (getitem dimensions (int l)) (\<lambda>d0.
     ebind (randn d1 d0 g) (\<lambda>(W, g1).
     ebind (randn d1 1 g1) (\<lambda>(b, g2).
       initialize_loop dimensions ls (weights @ [W]) (biases @ [b]) g2))))"

definition initialize_model :: "int list \<Rightarrow> np_state \<Rightarrow> error + (model \<times> np_state)" where
  "initialize_model dimensions g =
     (let L = int (length dimensions) - 1 in
      ebind (initialize_loop dimensions [0..<nat L] [] [] g) (\<lambda>(weights, biases, g').
        Inr (Map.empty(''weights'' \<mapsto> PList weights, ''biases'' \<mapsto> PList biases,
                       ''nlayers'' \<mapsto> PInt L), g')))"


section \<open>Forward propagation\<close>

text \<open>
  The functions that change the model return, when they raise, the error together with
  the dictionary as it is at that moment.
\<close>

fun forward_loop ::
  "(ndarray \<times> ndarray) list \<Rightarrow> ndarray \<Rightarrow> ndarray list \<Rightarrow> ndarray list
    \<Rightarrow> error + (ndarray \<times> ndarray list \<times> ndarray list)" where
  "forward_loop [] a activations zs = Inr (a, activations, zs)"
| "forward_loop ((W, b) # rest) a activations zs =
     ebind (matmul W a) (\<lambda>Wa.
     ebind (add Wa b) (\<lambda>z.
       forward_loop rest (sigma z) (activations @ [sigma z]) (zs @ [z])))"

definition forward_trace ::
  "ndarray \<Rightarrow> model \<Rightarrow> error + (ndarray \<times> ndarray list \<times> ndarray list)" where
  "forward_trace x model =
     ebind (lookup model ''weights'') (\<lambda>wv.
     ebind (lookup model ''biases'') (\<lambda>bv.
     ebind (as_list wv) (\<lambda>ws.
     ebind (as_list bv) (\<lambda>bs.
       forward_loop (zip ws bs) x [x] []))))"

definition forward :: "ndarray \<Rightarrow> model \<Rightarrow> (error \<times> model) + (ndarray \<times> model)" where
  "forward x model =
     (case forward_trace x model of
        Inl e \<Rightarrow> Inl (e, model)
      | Inr (a, activations, zs) \<Rightarrow>
          Inr (a, model(''activations'' \<mapsto> PList activations, ''z_inputs'' \<mapsto> PList zs)))"


section \<open>Backward propagation\<close>

fun backward_loop ::
  "(ndarray \<times> ndarray \<times> ndarray) list \<Rightarrow> nat \<Rightarrow> ndarray \<Rightarrow> ndarray list \<Rightarrow> ndarray list
    \<Rightarrow> error + (ndarray list \<times> ndarray list)" where
  "backward_loop [] Nbatch delta grad_weights grad_biases = Inr (grad_weights, grad_biases)"
| "backward_loop ((W, z, a) # rest) Nbatch delta grad_weights grad_biases =
     ebind (matmul (transpose_nd W) delta) (\<lambda>Wd.
     ebind (sigma_prime z) (\<lambda>sp.
     ebind (mul Wd sp) (\<lambda>delta'.
     ebind (matmul delta' (ones Nbatch 1)) (\<lambda>grad_b.
     ebind (matmul delta' (transpose_nd a)) (\<lambda>grad_W.
       backward_loop rest Nbatch delta' (grad_weights @ [grad_W]) (grad_biases @ [grad_b]))))))"

definition backward_grads :: "ndarray \<Rightarrow> model \<Rightarrow> error + (ndarray list \<times> ndarray list)" where
  "backward_grads y model =
     (let Nbatch = ncols y in
      ebind (lookup model ''activations'') (\<lambda>av.
      ebind (getitem_val av (- 1)) (\<lambda>yhat.
      ebind (lookup model ''z_inputs'') (\<lambda>zv.
      ebind (getitem_val zv (- 1)) (\<lambda>z.
      ebind (lookup model ''activations'') (\<lambda>av2.
      ebind (getitem_val av2 (- 2)) (\<lambda>a.
      ebind (loss_prime yhat y) (\<lambda>lp.
      ebind (sigma_prime z) (\<lambda>sp.
      ebind (mul lp sp) (\<lambda>delta.
      ebind (matmul delta (ones Nbatch 1)) (\<lambda>grad_b.
      ebind (matmul delta (transpose_nd a)) (\<lambda>grad_W.
      ebind (lookup model ''weights'') (\<lambda>wv.
      ebind (slice_back_val wv (Some (- 1)) (Some 0)) (\<lambda>ws.
      ebind (lookup model ''z_inputs'') (\<lambda>zv2.
      ebind (slice_back_val zv2 (Some (- 2)) None) (\<lambda>zs.
      ebind (lookup model ''activations'') (\<lambda>av3.
      ebind (slice_back_val av3 (Some (- 3)) None) (\<lambda>as.
      ebind (backward_loop (zip ws (zip zs as)) Nbatch delta [grad_W] [grad_b])
        (\<lambda>(grad_weights, grad_biases).
          Inr (slice_back grad_weights None None,
               slice_back grad_biases None None))))))))))))))))))))"

definition backward :: "ndarray \<Rightarrow> model \<Rightarrow> (error \<times> model) + model" where
  "backward y model =
     (case backward_grads y model of
        Inl e \<Rightarrow> Inl (e, model)
      | Inr (gw, gb) \<Rightarrow> Inr (model(''grad_weights'' \<mapsto> PList gw, ''grad_biases'' \<mapsto> PList gb)))"


section \<open>Parameter update\<close>

fun update_loop ::
  "(ndarray \<times> ndarray \<times> ndarray \<times> ndarray) list \<Rightarrow> real \<Rightarrow> ndarray list \<Rightarrow> ndarray list
    \<Rightarrow> error + (ndarray list \<times> ndarray list)" where
  "update_loop [] eta new_weights new_biases = Inr (new_weights, new_biases)"
| "update_loop ((W, b, dW, db) # rest) eta new_weights new_biases =
     ebind (sub W (amap (\<lambda>v. eta * v) dW)) (\<lambda>W'.
     ebind (sub b (amap (\<lambda>v. eta * v) db)) (\<lambda>b'.
       update_loop rest eta (new_weights @ [W']) (new_biases @ [b'])))"

definition update_params :: "real \<Rightarrow> model \<Rightarrow> error + (ndarray list \<times> ndarray list)" where
  "update_params eta model =
     ebind (lookup model ''weights'') (\<lambda>wv.
     ebind (lookup model ''biases'') (\<lambda>bv.
     ebind (lookup model ''grad_weights'') (\<lambda>gwv.
     ebind (lookup model ''grad_biases'') (\<lambda>gbv.
     ebind (as_list wv) (\<lambda>ws.
     ebind (as_list bv) (\<lambda>bs.
     ebind (as_list gwv) (\<lambda>gws.
     ebind (as_list gbv) (\<lambda>gbs.
       update_loop (zip ws (zip bs (zip gws gbs))) eta [] []))))))))"

text \<open>\<open>for key in [...]: del model[key]\<close>; deleting a key that is not there raises \<open>KeyError\<close>.\<close>

fun del_keys :: "string list \<Rightarrow> model \<Rightarrow> (error \<times> model) + model" where
  "del_keys [] model = Inr model"
| "del_keys (key # keys) model =
     (case model key of
        None \<Rightarrow> Inl (KeyError, model)
      | Some v \<Rightarrow> del_keys keys (model(key := None)))"

definition update :: "real \<Rightarrow> model \<Rightarrow> (error \<times> model) + model" where
  "update eta model =
     (case update_params eta model of
        Inl e \<Rightarrow> Inl (e, model)
      | Inr (new_weights, new_biases) \<Rightarrow>
          del_keys [''z_inputs'', ''activations'', ''grad_weights'', ''grad_biases'']
            (model(''weights'' \<mapsto> PList new_weights, ''biases'' \<mapsto> PList new_biases)))"


section \<open>One pass of the training loop\<close>

text \<open>
  Each epoch of the training loop runs \<open>yhat, model = forward(X, model)\<close> and then
  \<open>model = backward(y, model)\<close>, before \<open>update\<close>; after these two calls the model holds the
  gradients of the batch.
\<close>

definition forward_backward :: "ndarray \<Rightarrow> ndarray \<Rightarrow> model \<Rightarrow> (error \<times> model) + model" where
  "forward_backward x y model =
     (case forward x model of
        Inl failure \<Rightarrow> Inl failure
      | Inr (yhat, model1) \<Rightarrow> backward y model1)"

section \<open>The layer equations\<close>

text \<open>
  The equations of forward and backward propagation as the description of the network
  writes them, on arrays whose shapes fit.  Layers are numbered \<open>1..L\<close>; the lists are
  indexed from 0, so the weights of layer \<open>l\<close> are \<open>weights ! (l - 1)\<close>, while
  \<open>activations ! l\<close> is \<open>a[l]\<close> because the list starts with \<open>a[0]\<close>.
\<close>

definition mat_times :: "ndarray \<Rightarrow> ndarray \<Rightarrow> ndarray" where
  "mat_times A B = mk (nrows A) (ncols B) (\<lambda>i j. \<Sum>k<ncols A. el A i k * el B k j)"

definition plus_bias :: "ndarray \<Rightarrow> ndarray \<Rightarrow> ndarray" where
  "plus_bias Z b = mk (nrows Z) (ncols Z) (\<lambda>i j. el Z i j + el b i 0)"

definition hadamard :: "ndarray \<Rightarrow> ndarray \<Rightarrow> ndarray" where
  "hadamard A B = mk (nrows A) (ncols A) (\<lambda>i j. el A i j * el B i j)"

definition lossPrime :: "ndarray \<Rightarrow> ndarray \<Rightarrow> ndarray" where
  "lossPrime yhat y = mk (nrows yhat) (ncols yhat) (\<lambda>i j. el yhat i j - el y i j)"

definition sigmaPrime :: "ndarray \<Rightarrow> ndarray" where
  "sigmaPrime z = amap (\<lambda>v. sigma_elem v * (1 - sigma_elem v)) z"

text \<open>\<open>a[0] = x\<close>, \<open>z[l] = weights[l] \<cdot> a[l-1] + biases[l]\<close> and \<open>a[l] = sigma(z[l])\<close>.\<close>

fun activation :: "ndarray list \<Rightarrow> ndarray list \<Rightarrow> ndarray \<Rightarrow> nat \<Rightarrow> ndarray" where
  "activation weights biases x 0 = x"
| "activation weights biases x (Suc l) =
     sigma (plus_bias (mat_times (weights ! l) (activation weights biases x l)) (biases ! l))"

definition weighted_input :: "ndarray list \<Rightarrow> ndarray list \<Rightarrow> ndarray \<Rightarrow> nat \<Rightarrow> ndarray" where
  "weighted_input weights biases x l =
     plus_bias (mat_times (weights ! (l - 1)) (activation weights biases x (l - 1))) (biases ! (l - 1))"

text \<open>
  \<open>delta[L] = lossPrime(a[L], y) \<odot> sigmaPrime(z[L])\<close> and, for \<open>l\<close> from \<open>L-1\<close> down to 1,
  \<open>delta[l] = (weights[l+1]\<^sup>T \<cdot> delta[l+1]) \<odot> sigmaPrime(z[l])\<close>, where \<open>L\<close> is the number
  of weight matrices.
\<close>

function delta :: "ndarray list \<Rightarrow> ndarray list \<Rightarrow> ndarray list \<Rightarrow> ndarray \<Rightarrow> nat \<Rightarrow> ndarray" where
  "delta weights zs activations y l =
     (if length weights \<le> l
      then hadamard (lossPrime (activations ! length weights) y)
                    (sigmaPrime (zs ! (length weights - 1)))
      else hadamard (mat_times (transpose_nd (weights ! l)) (delta weights zs activations y (Suc l)))
                    (sigmaPrime (zs ! (l - 1))))"
  by pat_completeness auto
termination
  by (relation "measure (\<lambda>(weights, zs, activations, y, l). length weights - l)") auto

declare delta.simps [simp del]

text \<open>
  \<open>gradBiases[l] = delta[l] \<cdot> ones(N_batch, 1)\<close> and \<open>gradWeights[l] = delta[l] \<cdot> a[l-1]\<^sup>T\<close>.
\<close>

definition gradBiases :: "ndarray list \<Rightarrow> ndarray list \<Rightarrow> ndarray list \<Rightarrow> ndarray \<Rightarrow> nat \<Rightarrow> ndarray" where
  "gradBiases weights zs activations y l =
     mat_times (delta weights zs activations y l) (ones (ncols y) 1)"

definition gradWeights :: "ndarray list \<Rightarrow> ndarray list \<Rightarrow> ndarray list \<Rightarrow> ndarray \<Rightarrow> nat \<Rightarrow> ndarray" where
  "gradWeights weights zs activations y l =
     mat_times (delta weights zs activations y l) (transpose_nd (activations ! (l - 1)))"

text \<open>
  Shapes.  The parameters fit the layer sizes \<open>dims\<close> when layer \<open>l\<close> has a weight matrix
  of shape \<open>(dims[l], dims[l-1])\<close> and a bias column of shape \<open>(dims[l], 1)\<close>; a trace fits
  a batch of \<open>N\<close> columns when \<open>a[l]\<close> has shape \<open>(dims[l], N)\<close> for \<open>l = 0..L\<close> and \<open>z[l]\<close>
  has shape \<open>(dims[l], N)\<close> for \<open>l = 1..L\<close>.
\<close>

definition valid_weights :: "nat list \<Rightarrow> ndarray list \<Rightarrow> bool" where
  "valid_weights dims weights \<longleftrightarrow>
     length dims = Suc (length weights) \<and>
     list_all (\<lambda>l. shape (weights ! l) = (dims ! Suc l, dims ! l)) [0..<length weights]"

definition valid_biases :: "nat list \<Rightarrow> ndarray list \<Rightarrow> bool" where
  "valid_biases dims biases \<longleftrightarrow>
     length dims = Suc (length biases) \<and>
     list_all (\<lambda>l. shape (biases ! l) = (dims ! Suc l, 1)) [0..<length biases]"

definition valid_trace :: "nat list \<Rightarrow> nat \<Rightarrow> ndarray list \<Rightarrow> ndarray list \<Rightarrow> bool" where
  "valid_trace dims N zs activations \<longleftrightarrow>
     length dims = Suc (length zs) \<and> length activations = Suc (length zs) \<and>
     list_all (\<lambda>l. shape (zs ! l) = (dims ! Suc l, N)) [0..<length zs] \<and>
     list_all (\<lambda>l. shape (activations ! l) = (dims ! l, N)) [0..<length activations]"


text \<open>The gradient step \<open>W - eta * dW\<close> on two arrays of one shape.\<close>

definition descend :: "real \<Rightarrow> ndarray \<Rightarrow> ndarray \<Rightarrow> ndarray" where
  "descend eta W dW = mk (nrows W) (ncols W) (\<lambda>i j. el W i j - eta * el dW i j)"

definition transient_keys :: "string set" where
  "transient_keys = {''z_inputs'', ''activations'', ''grad_weights'', ''grad_biases''}"

text \<open>
  Batches.  \<open>column j A\<close> is column \<open>j\<close> of \<open>A\<close> as an array with one column, \<open>array_sum r c As\<close>
  is the entrywise sum of a list of arrays of shape \<open>(r, c)\<close>, and \<open>stored key result\<close> is the
  list that the model returned by a run holds under \<open>key\<close>.
\<close>

definition column :: "nat \<Rightarrow> ndarray \<Rightarrow> ndarray" where
  "column j A = mk (nrows A) 1 (\<lambda>i k. el A i j)"

definition array_sum :: "nat \<Rightarrow> nat \<Rightarrow> ndarray list \<Rightarrow> ndarray" where
  "array_sum r c As = mk r c (\<lambda>i j. sum_list (map (\<lambda>A. el A i j) As))"

definition stored :: "string \<Rightarrow> (error \<times> model) + model \<Rightarrow> ndarray list" where
  "stored key result =
     (case result of
        Inl failure \<Rightarrow> []
      | Inr model \<Rightarrow> (case model key of Some (PList xs) \<Rightarrow> xs | _ \<Rightarrow> []))"

definition trace_a :: "ndarray list \<Rightarrow> ndarray list \<Rightarrow> ndarray \<Rightarrow> ndarray list" where
  "trace_a weights biases x = map (activation weights biases x) [0..<Suc (length weights)]"

definition trace_z :: "ndarray list \<Rightarrow> ndarray list \<Rightarrow> ndarray \<Rightarrow> ndarray list" where
  "trace_z weights biases x = map (weighted_input weights biases x) [1..<Suc (length weights)]"

text \<open>
  An array has the shape \<open>(r, c)\<close> when it says so and holds \<open>r\<close> rows of \<open>c\<close> entries each.
  \<open>entries_needed dims\<close> counts the entries of all weight matrices and bias columns of a
  network with the layer sizes \<open>dims\<close>.
\<close>

definition has_shape :: "ndarray \<Rightarrow> nat \<Rightarrow> nat \<Rightarrow> bool" where
  "has_shape A r c \<longleftrightarrow>
     nrows A = r \<and> ncols A = c \<and> length (entries A) = r \<and>
     list_all (\<lambda>row. length row = c) (entries A)"

definition layer_entries :: "int list \<Rightarrow> nat \<Rightarrow> nat" where
  "layer_entries dims l = nat (dims ! Suc l) * nat (dims ! l) + nat (dims ! Suc l)"

definition entries_needed :: "int list \<Rightarrow> nat" where
  "entries_needed dims = sum_list (map (layer_entries dims) [0..<length dims - 1])"

section \<open>Facts about arrays\<close>

lemma nrows_mk [simp]: "nrows (mk r c f) = r"
  by (simp add: mk_def)

lemma ncols_mk [simp]: "ncols (mk r c f) = c"
  by (simp add: mk_def)

lemma shape_mk [simp]: "shape (mk r c f) = (r, c)"
  by (simp add: shape_def)

lemma el_mk [simp]: "i < r \<Longrightarrow> j < c \<Longrightarrow> el (mk r c f) i j = f i j"
  by (simp add: mk_def el_def)

lemma mk_cong: "(\<And>i j. i < r \<Longrightarrow> j < c \<Longrightarrow> f i j = g i j) \<Longrightarrow> mk r c f = mk r c g"
  by (simp add: mk_def)

lemma mk_eq_iff: "mk r c f = mk r c g \<longleftrightarrow> (\<forall>i<r. \<forall>j<c. f i j = g i j)"
  by (auto simp: mk_def)

lemma np_sum_mk: "np_sum (mk r c f) = (\<Sum>i<r. \<Sum>j<c. f i j)"
  by (simp add: np_sum_def mk_def comp_def interv_sum_list_conv_sum_set_nat atLeast0LessThan)

lemma bdim_same [simp]: "bdim n n = Some n"
  by (simp add: bdim_def)

lemma bdim_one [simp]: "bdim n 1 = Some n"
  by (simp add: bdim_def)

lemma bidx_less: "i < n \<Longrightarrow> bidx n i = i"
  by (auto simp: bidx_def)

lemma broadcast2_same_shape:
  "nrows A = nrows B \<Longrightarrow> ncols A = ncols B \<Longrightarrow>
   broadcast2 f A B = Inr (mk (nrows A) (ncols A) (\<lambda>i j. f (el A i j) (el B i j)))"
  unfolding broadcast2_def by (auto intro!: mk_cong simp: bidx_less)

lemma shape_amap [simp]: "shape (amap f A) = shape A"
  by (simp add: amap_def shape_def)

lemma nrows_amap [simp]: "nrows (amap f A) = nrows A"
  by (simp add: amap_def)

lemma ncols_amap [simp]: "ncols (amap f A) = ncols A"
  by (simp add: amap_def)

lemma el_amap [simp]: "i < nrows A \<Longrightarrow> j < ncols A \<Longrightarrow> el (amap f A) i j = f (el A i j)"
  by (simp add: amap_def)

lemma amap_amap: "amap f (amap g A) = amap (\<lambda>v. f (g v)) A"
  by (auto simp: amap_def intro!: mk_cong)

lemma sigma_prime_elementwise:
  "sigma_prime x = Inr (amap (\<lambda>v. sigma_elem v * (1 - sigma_elem v)) x)"
  unfolding sigma_prime_def mul_def sigma_def
  by (subst broadcast2_same_shape) (auto simp: amap_def intro!: mk_cong)

lemma sigma_elem_logistic: "sigma_elem v = 1 / (1 + exp (- v))"
proof (cases "v \<ge> 0")
  case True
  then show ?thesis by (simp add: sigma_elem_def)
next
  case False
  have pos: "1 + exp v > 0"
    by (simp add: add_pos_pos)
  have "1 - 1 / (1 + exp v) = exp v / (1 + exp v)"
    using pos by (simp add: field_simps)
  also have "\<dots> = 1 / (1 + exp (- v))"
    using pos by (simp add: exp_minus field_simps)
  finally show ?thesis using False by (simp add: sigma_elem_def)
qed

section \<open>Facts about the Python containers and the initialiser\<close>

lemma ebind_Inr [simp]: "ebind (Inr v) f = f v"
  by (simp add: ebind_def)

lemma ebind_Inl [simp]: "ebind (Inl e) f = Inl e"
  by (simp add: ebind_def)

lemma getitem_nat [simp]: "l < length xs \<Longrightarrow> getitem xs (int l) = Inr (xs ! l)"
  by (simp add: getitem_def)

lemma getitem_nat_Suc [simp]: "Suc l < length xs \<Longrightarrow> getitem xs (int l + 1) = Inr (xs ! Suc l)"
  using getitem_nat [of "Suc l" xs] by (simp add: add.commute)

lemma has_shape_mk [simp]: "has_shape (mk r c f) r c"
  by (simp add: has_shape_def mk_def list_all_iff)

lemma randn_Inr:
  assumes "0 \<le> d0" and "0 \<le> d1" and "8 * (nonzero_dim d0 * nonzero_dim d1) \<le> max_intp"
    and "nat d0 * nat d1 \<le> free s"
  shows "randn d0 d1 s =
           Inr (mk (nat d0) (nat d1) (\<lambda>i j. samples s (i * nat d1 + j)),
                NpState (\<lambda>n. samples s (n + nat d0 * nat d1)) (free s - nat d0 * nat d1))"
  using assms by (simp add: randn_def)



lemma initialize_loop_ok:
  assumes "\<forall>l\<in>set ls. Suc l < length dims \<and> 0 < dims ! l \<and> 0 < dims ! Suc l
                    \<and> 8 * (dims ! Suc l * dims ! l) \<le> max_intp"
    and "sum_list (map (layer_entries dims) ls) \<le> free s"
  shows "\<exists>ws' bs' s'. initialize_loop dims ls ws bs s = Inr (ws @ ws', bs @ bs', s')
      \<and> length ws' = length ls \<and> length bs' = length ls
      \<and> (\<forall>k<length ls. has_shape (ws' ! k) (nat (dims ! Suc (ls ! k))) (nat (dims ! (ls ! k)))
                        \<and> has_shape (bs' ! k) (nat (dims ! Suc (ls ! k))) 1)"
  using assms
proof (induction ls arbitrary: ws bs s)
  case Nil
  then show ?case by simp
next
  case (Cons l ls)
  then have l: "Suc l < length dims" "l < length dims" "0 < dims ! l" "0 < dims ! Suc l"
    "8 * (dims ! Suc l * dims ! l) \<le> max_intp"
    by auto
  let ?d1 = "dims ! Suc l" and ?d0 = "dims ! l"
  from Cons.prems(2) have "layer_entries dims l + sum_list (map (layer_entries dims) ls) \<le> free s"
    by simp
  then have mem: "nat ?d1 * nat ?d0 + nat ?d1 + sum_list (map (layer_entries dims) ls) \<le> free s"
    by (simp only: layer_entries_def [of dims l])
  define W where "W = mk (nat ?d1) (nat ?d0) (\<lambda>i j. samples s (i * nat ?d0 + j))"
  define s1 where "s1 = NpState (\<lambda>n. samples s (n + nat ?d1 * nat ?d0)) (free s - nat ?d1 * nat ?d0)"
  define b where "b = mk (nat ?d1) (nat 1) (\<lambda>i j. samples s1 (i * nat 1 + j))"
  define s2 where "s2 = NpState (\<lambda>n. samples s1 (n + nat ?d1 * nat 1)) (free s1 - nat ?d1 * nat 1)"
  have W: "randn ?d1 ?d0 s = Inr (W, s1)"
    unfolding W_def s1_def using l mem by (intro randn_Inr) (simp_all add: nonzero_dim_def)
  have "?d1 * 1 \<le> ?d1 * ?d0"
    using l(3,4) by (intro mult_left_mono) simp_all
  with l(5) have "8 * ?d1 \<le> max_intp"
    by simp
  then have small: "8 * (nonzero_dim ?d1 * nonzero_dim 1) \<le> max_intp"
    using l(4) by (simp add: nonzero_dim_def)
  have b: "randn ?d1 1 s1 = Inr (b, s2)"
    unfolding b_def s2_def using l mem small by (intro randn_Inr) (simp_all add: s1_def)
  from Cons.prems(1) have rest:
    "\<forall>l\<in>set ls. Suc l < length dims \<and> 0 < dims ! l \<and> 0 < dims ! Suc l
                    \<and> 8 * (dims ! Suc l * dims ! l) \<le> max_intp"
    by simp
  have mem2: "sum_list (map (layer_entries dims) ls) \<le> free s2"
    using mem by (simp add: s2_def s1_def)
  from Cons.IH [OF rest mem2, of "ws @ [W]" "bs @ [b]"] obtain ws' bs' s' where
    run: "initialize_loop dims ls (ws @ [W]) (bs @ [b]) s2 = Inr ((ws @ [W]) @ ws', (bs @ [b]) @ bs', s')"
    and len: "length ws' = length ls" "length bs' = length ls"
    and shapes: "\<forall>k<length ls. has_shape (ws' ! k) (nat (dims ! Suc (ls ! k))) (nat (dims ! (ls ! k)))
                        \<and> has_shape (bs' ! k) (nat (dims ! Suc (ls ! k))) 1"
    by blast
  have step: "initialize_loop dims (l # ls) ws bs s = Inr (ws @ (W # ws'), bs @ (b # bs'), s')"
    using l run W b by simp
  have "\<forall>k<length (l # ls). has_shape ((W # ws') ! k) (nat (dims ! Suc ((l # ls) ! k))) (nat (dims ! ((l # ls) ! k)))
                        \<and> has_shape ((b # bs') ! k) (nat (dims ! Suc ((l # ls) ! k))) 1"
  proof (intro allI impI)
    fix k assume "k < length (l # ls)"
    then show "has_shape ((W # ws') ! k) (nat (dims ! Suc ((l # ls) ! k))) (nat (dims ! ((l # ls) ! k)))
                        \<and> has_shape ((b # bs') ! k) (nat (dims ! Suc ((l # ls) ! k))) 1"
      using shapes by (cases k) (simp_all add: W_def b_def)
  qed
  with step len show ?case by (intro exI [of _ "W # ws'"] exI [of _ "b # bs'"] exI [of _ s']) simp
qed


lemma initialize_model_example:
  "\<exists>s'. initialize_model [2, 1, 2] (NpState real 10) =
     Inr ([''weights'' \<mapsto> PList [NDArray 1 2 [[0, 1]], NDArray 2 1 [[3], [4]]],
           ''biases'' \<mapsto> PList [NDArray 1 1 [[2]], NDArray 2 1 [[5], [6]]],
           ''nlayers'' \<mapsto> PInt 2], s')"
proof -
  have u: "[0..<nat (int (length [2, 1, 2 :: int]) - 1)] = [0, Suc 0]" by (simp add: upt_rec)
  show ?thesis
    unfolding initialize_model_def Let_def u
    by (simp add: getitem_def randn_def nonzero_dim_def max_intp_def mk_def upt_rec numeral_2_eq_2)
qed

section \<open>Facts about the loss\<close>

lemma loss_value:
  assumes "shape yhat = shape y"
  shows "loss yhat y = Inr (0.5 * (\<Sum>i<nrows y. \<Sum>j<ncols y. (el yhat i j - el y i j)\<^sup>2))"
proof -
  from assms have s: "nrows yhat = nrows y" "ncols yhat = ncols y"
    by (simp_all add: shape_def)
  show ?thesis
    unfolding loss_def sub_def
    by (simp add: broadcast2_same_shape s amap_def np_sum_mk)
qed

lemma loss_prime_value:
  assumes "shape yhat = shape y"
  shows "loss_prime yhat y = Inr (mk (nrows y) (ncols y) (\<lambda>i j. el yhat i j - el y i j))"
proof -
  from assms have s: "nrows yhat = nrows y" "ncols yhat = ncols y"
    by (simp_all add: shape_def)
  show ?thesis
    unfolding loss_prime_def sub_def by (simp add: broadcast2_same_shape s)
qed

lemma loss_partial_derivative:
  assumes sh: "shape y = (r, c)" and i: "i < r" and j: "j < c"
  shows "((\<lambda>t. projr (loss (mk r c (F(i := (F i)(j := t)))) y))
            has_real_derivative (F i j - el y i j)) (at (F i j))"
proof -
  define C where "C = (\<Sum>p\<in>{..<r} - {i}. \<Sum>q<c. (F p q - el y p q)\<^sup>2)
                      + (\<Sum>q\<in>{..<c} - {j}. (F i q - el y i q)\<^sup>2)"
  have eq: "projr (loss (mk r c (F(i := (F i)(j := t)))) y) = 0.5 * ((t - el y i j)\<^sup>2 + C)" for t
  proof -
    let ?G = "F(i := (F i)(j := t))"
    have "shape (mk r c ?G) = shape y" using sh by simp
    then have "projr (loss (mk r c ?G) y) = 0.5 * (\<Sum>p<r. \<Sum>q<c. (?G p q - el y p q)\<^sup>2)"
      using sh by (simp add: loss_value shape_def)
    also have "(\<Sum>p<r. \<Sum>q<c. (?G p q - el y p q)\<^sup>2)
        = (\<Sum>q<c. (?G i q - el y i q)\<^sup>2) + (\<Sum>p\<in>{..<r} - {i}. \<Sum>q<c. (?G p q - el y p q)\<^sup>2)"
      using i by (subst sum.remove [of _ i]) auto
    also have "(\<Sum>p\<in>{..<r} - {i}. \<Sum>q<c. (?G p q - el y p q)\<^sup>2)
        = (\<Sum>p\<in>{..<r} - {i}. \<Sum>q<c. (F p q - el y p q)\<^sup>2)"
      by (rule sum.cong) auto
    also have "(\<Sum>q<c. (?G i q - el y i q)\<^sup>2)
        = (t - el y i j)\<^sup>2 + (\<Sum>q\<in>{..<c} - {j}. (?G i q - el y i q)\<^sup>2)"
      using j by (subst sum.remove [of _ j]) auto
    also have "(\<Sum>q\<in>{..<c} - {j}. (?G i q - el y i q)\<^sup>2)
        = (\<Sum>q\<in>{..<c} - {j}. (F i q - el y i q)\<^sup>2)"
      by (rule sum.cong) auto
    finally show ?thesis unfolding C_def by argo
  qed
  have "((\<lambda>t. 0.5 * ((t - el y i j)\<^sup>2 + C)) has_real_derivative (F i j - el y i j)) (at (F i j))"
    by (auto intro!: derivative_eq_intros)
  then show ?thesis by (simp add: eq)
qed

section \<open>Facts about forward propagation\<close>

lemma matmul_fits: "ncols A = nrows B \<Longrightarrow> matmul A B = Inr (mat_times A B)"
  by (simp add: matmul_def mat_times_def)

lemma bdim_Suc_0 [simp]: "bdim n (Suc 0) = Some n"
  by (simp add: bdim_def)

lemma add_bias: "nrows b = nrows Z \<Longrightarrow> ncols b = 1 \<Longrightarrow> add Z b = Inr (plus_bias Z b)"
  unfolding add_def broadcast2_def plus_bias_def
  by (auto intro!: mk_cong simp: bidx_less) (simp add: bidx_def)

lemma shape_mat_times [simp]: "shape (mat_times A B) = (nrows A, ncols B)"
  by (simp add: mat_times_def)

lemma shape_plus_bias [simp]: "shape (plus_bias Z b) = shape Z"
  by (simp add: plus_bias_def shape_def)

lemma shape_sigma [simp]: "shape (sigma z) = shape z"
  by (simp add: sigma_def)

lemma shape_eq: "shape A = (r, c) \<longleftrightarrow> nrows A = r \<and> ncols A = c"
  by (auto simp: shape_def)

lemma valid_weights_nth:
  "valid_weights dims ws \<Longrightarrow> l < length ws \<Longrightarrow> nrows (ws ! l) = dims ! Suc l \<and> ncols (ws ! l) = dims ! l"
  by (simp add: valid_weights_def list_all_iff shape_eq)

lemma valid_biases_nth:
  "valid_biases dims bs \<Longrightarrow> l < length bs \<Longrightarrow> nrows (bs ! l) = dims ! Suc l \<and> ncols (bs ! l) = 1"
  by (simp add: valid_biases_def list_all_iff shape_eq)

lemma shape_activation:
  assumes "valid_weights dims ws" and "shape x = (dims ! 0, N)"
  shows "l \<le> length ws \<Longrightarrow> shape (activation ws bs x l) = (dims ! l, N)"
proof (induction l)
  case 0
  with assms show ?case by simp
next
  case (Suc k)
  then have "k < length ws" "shape (activation ws bs x k) = (dims ! k, N)" by simp_all
  with assms(1) show ?case
    by (simp add: valid_weights_nth shape_eq)
qed

lemma forward_loop_layers:
  assumes w: "valid_weights dims ws" and b: "valid_biases dims bs" and x: "shape x = (dims ! 0, N)"
  shows "k \<le> length ws \<Longrightarrow>
         forward_loop (zip (drop k ws) (drop k bs)) (activation ws bs x k) acts zs =
           Inr (activation ws bs x (length ws),
                acts @ map (activation ws bs x) [Suc k..<Suc (length ws)],
                zs @ map (weighted_input ws bs x) [Suc k..<Suc (length ws)])"
proof (induction "length ws - k" arbitrary: k acts zs)
  case 0
  then have "k = length ws" by simp
  then show ?case by simp
next
  case (Suc n)
  then have k: "k < length ws" by simp
  from w b have len: "length bs = length ws"
    by (simp add: valid_weights_def valid_biases_def)
  let ?a = "activation ws bs x k"
  have sa: "shape ?a = (dims ! k, N)"
    using shape_activation [OF w x] k by simp
  have mm: "matmul (ws ! k) ?a = Inr (mat_times (ws ! k) ?a)"
    using valid_weights_nth [OF w k] sa by (simp add: matmul_fits shape_eq)
  have ad: "add (mat_times (ws ! k) ?a) (bs ! k) = Inr (plus_bias (mat_times (ws ! k) ?a) (bs ! k))"
    using valid_weights_nth [OF w k] valid_biases_nth [OF b] k len
    by (intro add_bias) (simp_all add: mat_times_def)
  have z: "plus_bias (mat_times (ws ! k) ?a) (bs ! k) = weighted_input ws bs x (Suc k)"
    by (simp add: weighted_input_def)
  have a: "sigma (weighted_input ws bs x (Suc k)) = activation ws bs x (Suc k)"
    by (simp add: weighted_input_def)
  have dr: "zip (drop k ws) (drop k bs) = (ws ! k, bs ! k) # zip (drop (Suc k) ws) (drop (Suc k) bs)"
    using k len by (simp add: Cons_nth_drop_Suc [symmetric])
  from Suc.hyps(2) have n: "n = length ws - Suc k" by simp
  have up: "[Suc k..<Suc (length ws)] = Suc k # [Suc (Suc k)..<Suc (length ws)]"
    using k by (simp add: upt_conv_Cons)
  have "forward_loop (zip (drop k ws) (drop k bs)) ?a acts zs =
        forward_loop (zip (drop (Suc k) ws) (drop (Suc k) bs)) (activation ws bs x (Suc k))
          (acts @ [activation ws bs x (Suc k)]) (zs @ [weighted_input ws bs x (Suc k)])"
    unfolding dr by (simp add: mm ad z a del: activation.simps)
  also have "\<dots> = Inr (activation ws bs x (length ws),
                (acts @ [activation ws bs x (Suc k)]) @ map (activation ws bs x) [Suc (Suc k)..<Suc (length ws)],
                (zs @ [weighted_input ws bs x (Suc k)]) @ map (weighted_input ws bs x) [Suc (Suc k)..<Suc (length ws)])"
    using Suc.hyps(1) [OF n] k by simp
  finally show ?case unfolding up by simp
qed

lemma lookup_Some [simp]: "model key = Some v \<Longrightarrow> lookup model key = Inr v"
  by (simp add: lookup_def)

lemma lookup_None [simp]: "model key = None \<Longrightarrow> lookup model key = Inl KeyError"
  by (simp add: lookup_def)

lemma as_list_PList [simp]: "as_list (PList xs) = Inr xs"
  by (simp add: as_list_def)

section \<open>Facts about the update and about missing keys\<close>

lemma sub_scaled:
  "nrows dW = nrows W \<Longrightarrow> ncols dW = ncols W \<Longrightarrow>
   sub W (amap (\<lambda>v. eta * v) dW) = Inr (descend eta W dW)"
  unfolding sub_def descend_def
  by (subst broadcast2_same_shape) (auto intro!: mk_cong)

lemma update_loop_layers:
  assumes w: "valid_weights dims ws" and gw: "valid_weights dims gws"
    and b: "valid_biases dims bs" and gb: "valid_biases dims gbs"
  shows "k \<le> length ws \<Longrightarrow>
         update_loop (zip (drop k ws) (zip (drop k bs) (zip (drop k gws) (drop k gbs)))) eta nw nb =
           Inr (nw @ map (\<lambda>l. descend eta (ws ! l) (gws ! l)) [k..<length ws],
                nb @ map (\<lambda>l. descend eta (bs ! l) (gbs ! l)) [k..<length ws])"
proof (induction "length ws - k" arbitrary: k nw nb)
  case 0
  then have "k = length ws" by simp
  then show ?case by simp
next
  case (Suc n)
  then have k: "k < length ws" by simp
  from w gw b gb have len: "length bs = length ws" "length gws = length ws" "length gbs = length ws"
    by (simp_all add: valid_weights_def valid_biases_def)
  have sw: "sub (ws ! k) (amap (\<lambda>v. eta * v) (gws ! k)) = Inr (descend eta (ws ! k) (gws ! k))"
    using valid_weights_nth [OF w k] valid_weights_nth [OF gw] k len by (intro sub_scaled) simp_all
  have sb: "sub (bs ! k) (amap (\<lambda>v. eta * v) (gbs ! k)) = Inr (descend eta (bs ! k) (gbs ! k))"
    using valid_biases_nth [OF b] valid_biases_nth [OF gb] k len by (intro sub_scaled) simp_all
  have dr: "zip (drop k ws) (zip (drop k bs) (zip (drop k gws) (drop k gbs))) =
            (ws ! k, bs ! k, gws ! k, gbs ! k) #
            zip (drop (Suc k) ws) (zip (drop (Suc k) bs) (zip (drop (Suc k) gws) (drop (Suc k) gbs)))"
    using k len by (simp add: Cons_nth_drop_Suc [symmetric])
  from Suc.hyps(2) have n: "n = length ws - Suc k" by simp
  have up: "[k..<length ws] = k # [Suc k..<length ws]"
    using k by (simp add: upt_conv_Cons)
  show ?case
    unfolding dr up using Suc.hyps(1) [OF n] k by (simp add: sw sb)
qed

lemma dom_after_update:
  assumes "m a = Some u" and "m b = Some v" and "a \<notin> {k1, k2, k3, k4}" and "b \<notin> {k1, k2, k3, k4}"
  shows "dom ((m(a \<mapsto> x, b \<mapsto> y))(k1 := None, k2 := None, k3 := None, k4 := None))
           = dom m - {k1, k2, k3, k4}"
  using assms by (auto simp: dom_def split: if_splits)

lemma others_after_update:
  "key \<notin> {a, b, k1, k2, k3, k4} \<Longrightarrow>
   ((m(a \<mapsto> x, b \<mapsto> y))(k1 := None, k2 := None, k3 := None, k4 := None)) key = m key"
  by auto

lemma del_keys_four:
  assumes "m k1 = Some v1" and "m k2 = Some v2" and "m k3 = Some v3" and "m k4 = Some v4"
    and "distinct [k1, k2, k3, k4]"
  shows "del_keys [k1, k2, k3, k4] m = Inr (m(k1 := None, k2 := None, k3 := None, k4 := None))"
  using assms by auto

lemma backward_grads_no_trace:
  assumes "model ''activations'' = None \<or> model ''z_inputs'' = None"
  shows "\<exists>e. backward_grads y model = Inl e"
proof (cases "model ''activations''")
  case None
  then show ?thesis by (simp add: backward_grads_def)
next
  case (Some av)
  with assms have z: "model ''z_inputs'' = None" by simp
  show ?thesis
  proof (cases "getitem_val av (- 1)")
    case (Inl e)
    with Some show ?thesis by (simp add: backward_grads_def)
  next
    case (Inr yhat)
    with Some z show ?thesis by (simp add: backward_grads_def)
  qed
qed

lemma update_params_no_gradients:
  assumes "model ''grad_weights'' = None \<or> model ''grad_biases'' = None"
  shows "\<exists>e. update_params eta model = Inl e"
proof (cases "model ''weights''")
  case None
  then show ?thesis by (simp add: update_params_def)
next
  case w: (Some wv)
  show ?thesis
  proof (cases "model ''biases''")
    case None
    with w show ?thesis by (simp add: update_params_def)
  next
    case b: (Some bv)
    show ?thesis
    proof (cases "model ''grad_weights''")
      case None
      with w b show ?thesis by (simp add: update_params_def)
    next
      case (Some gwv)
      with assms have "model ''grad_biases'' = None" by simp
      with w b Some show ?thesis by (simp add: update_params_def)
    qed
  qed
qed

lemma mk_1_1: "mk (Suc 0) (Suc 0) f = NDArray (Suc 0) (Suc 0) [[f 0 0]]"
  by (simp add: mk_def)

section \<open>Facts about backward propagation\<close>

lemma map_upto_nat: "map (\<lambda>k. f (nat k)) [int a..int b - 1] = map f [a..<b]"
proof (rule nth_equalityI)
  show "length (map (\<lambda>k. f (nat k)) [int a..int b - 1]) = length (map f [a..<b])"
    by simp
next
  fix i assume "i < length (map (\<lambda>k. f (nat k)) [int a..int b - 1])"
  then have i: "i < b - a" by simp
  then have "[int a..int b - 1] ! i = int a + int i"
    by (intro nth_upto) linarith
  with i show "map (\<lambda>k. f (nat k)) [int a..int b - 1] ! i = map f [a..<b] ! i"
    by (simp add: nat_add_distrib)
qed

lemma slice_back_all: "slice_back xs None None = rev xs"
proof -
  have "map (\<lambda>k. xs ! nat k) [int 0..int (length xs) - 1] = map (\<lambda>k. xs ! k) [0..<length xs]"
    by (rule map_upto_nat)
  then show ?thesis
    by (simp add: slice_back_def rev_map [symmetric] map_nth)
qed

lemma slice_back_weights:
  "slice_back xs (Some (- 1)) (Some 0) = map (\<lambda>l. xs ! l) (rev [1..<length xs])"
proof (cases "length xs = 0")
  case True
  then show ?thesis by (simp add: slice_back_def clip_back_def)
next
  case False
  have "map (\<lambda>k. xs ! nat k) [int 1..int (length xs) - 1] = map (\<lambda>l. xs ! l) [1..<length xs]"
    by (rule map_upto_nat)
  with False show ?thesis
    by (simp add: slice_back_def clip_back_def rev_map [symmetric])
qed

lemma map_pred_upt: "map (\<lambda>l. f (l - Suc 0)) [Suc 0..<Suc n] = map f [0..<n]"
  by (rule nth_equalityI) (simp_all del: upt_Suc)

lemma slice_back_zs:
  "slice_back xs (Some (- 2)) None = map (\<lambda>l. xs ! (l - 1)) (rev [1..<length xs])"
proof (cases "length xs < 2")
  case True
  then have "[1..<length xs] = []" by simp
  with True show ?thesis by (simp add: slice_back_def clip_back_def)
next
  case False
  then obtain n where n: "length xs = Suc n" "1 \<le> n"
    by (cases "length xs") auto
  have "map (\<lambda>k. xs ! nat k) [int 0..int n - 1] = map (\<lambda>l. xs ! l) [0..<n]"
    by (rule map_upto_nat)
  moreover have "int (length xs) - 2 = int n - 1" using n by simp
  ultimately show ?thesis
    using False n map_pred_upt [of "(!) xs" n]
    by (simp add: slice_back_def clip_back_def rev_map [symmetric] del: upt_Suc)
qed

lemma slice_back_activations:
  "slice_back xs (Some (- 3)) None = map (\<lambda>l. xs ! (l - 1)) (rev [1..<length xs - 1])"
proof (cases "length xs < 3")
  case True
  then have "[1..<length xs - 1] = []" by simp
  with True show ?thesis by (simp add: slice_back_def clip_back_def)
next
  case False
  then obtain n where n: "length xs = Suc (Suc n)" "1 \<le> n"
    by (cases "length xs"; cases "length xs - 1") auto
  have "map (\<lambda>k. xs ! nat k) [int 0..int n - 1] = map (\<lambda>l. xs ! l) [0..<n]"
    by (rule map_upto_nat)
  moreover have "int (length xs) - 3 = int n - 1" using n by simp
  ultimately show ?thesis
    using False n map_pred_upt [of "(!) xs" n]
    by (simp add: slice_back_def clip_back_def rev_map [symmetric] del: upt_Suc)
qed

lemma getitem_last: "length xs = Suc n \<Longrightarrow> getitem xs (- 1) = Inr (xs ! n)"
  by (simp add: getitem_def)

lemma getitem_last_but_one: "length xs = Suc (Suc n) \<Longrightarrow> getitem xs (- 2) = Inr (xs ! n)"
  by (simp add: getitem_def)

lemma mul_same_shape: "shape A = shape B \<Longrightarrow> mul A B = Inr (hadamard A B)"
  unfolding mul_def hadamard_def by (simp add: broadcast2_same_shape shape_def)

lemma loss_prime_same_shape: "shape yhat = shape y \<Longrightarrow> loss_prime yhat y = Inr (lossPrime yhat y)"
  unfolding loss_prime_def sub_def lossPrime_def by (simp add: broadcast2_same_shape shape_def)

lemma sigma_prime_total [simp]: "sigma_prime z = Inr (sigmaPrime z)"
  by (simp add: sigma_prime_elementwise sigmaPrime_def)

lemma shape_hadamard [simp]: "shape (hadamard A B) = shape A"
  by (simp add: hadamard_def shape_def)

lemma shape_lossPrime [simp]: "shape (lossPrime yhat y) = shape yhat"
  by (simp add: lossPrime_def shape_def)

lemma shape_sigmaPrime [simp]: "shape (sigmaPrime z) = shape z"
  by (simp add: sigmaPrime_def)

lemma shape_transpose_nd [simp]: "shape (transpose_nd A) = (ncols A, nrows A)"
  by (simp add: transpose_nd_def)

lemma shape_ones [simp]: "shape (ones r c) = (r, c)"
  by (simp add: ones_def)

lemma nrows_mat_times [simp]: "nrows (mat_times A B) = nrows A"
  by (simp add: mat_times_def)

lemma ncols_mat_times [simp]: "ncols (mat_times A B) = ncols B"
  by (simp add: mat_times_def)

lemma nrows_hadamard [simp]: "nrows (hadamard A B) = nrows A"
  by (simp add: hadamard_def)

lemma ncols_hadamard [simp]: "ncols (hadamard A B) = ncols A"
  by (simp add: hadamard_def)

lemma nrows_transpose_nd [simp]: "nrows (transpose_nd A) = ncols A"
  by (simp add: transpose_nd_def)

lemma ncols_transpose_nd [simp]: "ncols (transpose_nd A) = nrows A"
  by (simp add: transpose_nd_def)

lemma nrows_sigmaPrime [simp]: "nrows (sigmaPrime z) = nrows z"
  by (simp add: sigmaPrime_def)

lemma ncols_sigmaPrime [simp]: "ncols (sigmaPrime z) = ncols z"
  by (simp add: sigmaPrime_def)

lemma nrows_lossPrime [simp]: "nrows (lossPrime yhat y) = nrows yhat"
  by (simp add: lossPrime_def)

lemma ncols_lossPrime [simp]: "ncols (lossPrime yhat y) = ncols yhat"
  by (simp add: lossPrime_def)

lemma nrows_ones [simp]: "nrows (ones r c) = r"
  by (simp add: ones_def)

lemma ncols_ones [simp]: "ncols (ones r c) = c"
  by (simp add: ones_def)

lemma matmul_shapes:
  "shape A = (r, k) \<Longrightarrow> shape B = (k, c) \<Longrightarrow> matmul A B = Inr (mat_times A B)"
  by (simp add: matmul_fits shape_eq)

lemma valid_trace_zs:
  "valid_trace dims N zs acts \<Longrightarrow> l < length zs \<Longrightarrow> shape (zs ! l) = (dims ! Suc l, N)"
  by (simp add: valid_trace_def list_all_iff)

lemma valid_trace_activations:
  "valid_trace dims N zs acts \<Longrightarrow> l \<le> length zs \<Longrightarrow> shape (acts ! l) = (dims ! l, N)"
  by (simp add: valid_trace_def list_all_iff)

lemma valid_weights_shape:
  "valid_weights dims ws \<Longrightarrow> l < length ws \<Longrightarrow> shape (ws ! l) = (dims ! Suc l, dims ! l)"
  by (simp add: valid_weights_def list_all_iff)

lemma shape_delta:
  assumes w: "valid_weights dims ws" and t: "valid_trace dims N zs acts"
    and len: "length zs = length ws"
  shows "1 \<le> l \<Longrightarrow> l \<le> length ws \<Longrightarrow> shape (delta ws zs acts y l) = (dims ! l, N)"
proof (induction "length ws - l" arbitrary: l)
  case 0
  then have l: "l = length ws" by simp
  have "shape (acts ! length ws) = (dims ! length ws, N)"
    using valid_trace_activations [OF t, of "length ws"] len by simp
  with l show ?case by (subst delta.simps) simp
next
  case (Suc n)
  then have l: "l < length ws" "Suc l \<le> length ws" "1 \<le> Suc l" "n = length ws - Suc l"
    by simp_all
  from Suc.hyps(1) [OF l(4) l(3) l(2)]
  have "shape (delta ws zs acts y (Suc l)) = (dims ! Suc l, N)" .
  with l valid_weights_shape [OF w l(1)] show ?case
    by (subst delta.simps) (simp add: shape_eq)
qed

lemma backward_loop_layers:
  assumes w: "valid_weights dims ws" and t: "valid_trace dims N zs acts"
    and len: "length zs = length ws"
  shows "Suc m \<le> length ws \<Longrightarrow>
         backward_loop (map (\<lambda>l. (ws ! l, zs ! (l - 1), acts ! (l - 1))) (rev [1..<Suc m]))
           N (delta ws zs acts y (Suc m)) gw gb =
         Inr (gw @ map (\<lambda>l. mat_times (delta ws zs acts y l) (transpose_nd (acts ! (l - 1)))) (rev [1..<Suc m]),
              gb @ map (\<lambda>l. mat_times (delta ws zs acts y l) (ones N 1)) (rev [1..<Suc m]))"
proof (induction m arbitrary: gw gb)
  case 0
  then show ?case by simp
next
  case (Suc m)
  let ?D = "delta ws zs acts y"
  let ?l = "Suc m"
  from Suc.prems have l: "?l < length ws" "Suc ?l \<le> length ws" "m < length zs" "m \<le> length zs"
    using len by simp_all
  have sW: "shape (ws ! ?l) = (dims ! Suc ?l, dims ! ?l)"
    by (rule valid_weights_shape [OF w l(1)])
  have sD: "shape (?D (Suc ?l)) = (dims ! Suc ?l, N)"
    using l by (intro shape_delta [OF w t len]) simp_all
  have sz: "shape (zs ! m) = (dims ! ?l, N)"
    by (rule valid_trace_zs [OF t l(3)])
  have sa: "shape (acts ! m) = (dims ! m, N)"
    by (rule valid_trace_activations [OF t l(4)])
  have D: "?D ?l = hadamard (mat_times (transpose_nd (ws ! ?l)) (?D (Suc ?l))) (sigmaPrime (zs ! m))"
    using l by (subst delta.simps) simp
  have sDl: "shape (?D ?l) = (dims ! ?l, N)"
    using l by (intro shape_delta [OF w t len]) simp_all
  have m1: "matmul (transpose_nd (ws ! ?l)) (?D (Suc ?l)) =
              Inr (mat_times (transpose_nd (ws ! ?l)) (?D (Suc ?l)))"
    using sW sD by (intro matmul_shapes [where k = "dims ! Suc ?l"]) (simp_all add: shape_eq)
  have m2: "mul (mat_times (transpose_nd (ws ! ?l)) (?D (Suc ?l))) (sigmaPrime (zs ! m)) = Inr (?D ?l)"
    unfolding D using sW sD sz by (intro mul_same_shape) (simp add: shape_def)
  have m3: "matmul (?D ?l) (ones N 1) = Inr (mat_times (?D ?l) (ones N 1))"
    using sDl by (intro matmul_shapes [where k = N]) simp_all
  have m4: "matmul (?D ?l) (transpose_nd (acts ! m)) = Inr (mat_times (?D ?l) (transpose_nd (acts ! m)))"
    using sDl sa by (intro matmul_shapes [where k = N]) (simp_all add: shape_eq)
  have up: "rev [1..<Suc (Suc m)] = Suc m # rev [1..<Suc m]"
    by simp
  have step: "backward_loop (map (\<lambda>l. (ws ! l, zs ! (l - 1), acts ! (l - 1))) (rev [1..<Suc (Suc m)]))
           N (?D (Suc ?l)) gw gb =
         backward_loop (map (\<lambda>l. (ws ! l, zs ! (l - 1), acts ! (l - 1))) (rev [1..<Suc m]))
           N (?D ?l) (gw @ [mat_times (?D ?l) (transpose_nd (acts ! m))])
                     (gb @ [mat_times (?D ?l) (ones N 1)])"
    unfolding up
    by (simp only: list.map backward_loop.simps diff_Suc_1 m1 m2 m3 m4 sigma_prime_total ebind_Inr)
  have up': "rev [Suc 0..<Suc (Suc m)] = Suc m # rev [Suc 0..<Suc m]"
    by simp
  from Suc.prems have "Suc m \<le> length ws" by simp
  from Suc.IH [OF this] show ?case
    unfolding step by (simp add: up' del: upt_Suc)
qed

lemma getitem_val_PList [simp]: "getitem_val (PList xs) i = getitem xs i"
  by (simp add: getitem_val_def)

lemma slice_back_val_PList [simp]:
  "slice_back_val (PList xs) start stop = Inr (slice_back xs start stop)"
  by (simp add: slice_back_val_def)

lemma zip3_map: "zip (map f xs) (zip (map g xs) (map h xs)) = map (\<lambda>x. (f x, g x, h x)) xs"
  by (induction xs) simp_all

lemma backward_grads_layers:
  assumes kw: "model ''weights'' = Some (PList ws)" and kz: "model ''z_inputs'' = Some (PList zs)"
    and ka: "model ''activations'' = Some (PList acts)"
    and w: "valid_weights dims ws" and t: "valid_trace dims N zs acts"
    and ne: "ws \<noteq> []" and y: "shape y = (dims ! length ws, N)"
  shows "backward_grads y model =
           Inr (map (gradWeights ws zs acts y) [1..<Suc (length ws)],
                map (gradBiases ws zs acts y) [1..<Suc (length ws)])"
proof -
  let ?L = "length ws"
  let ?D = "delta ws zs acts y"
  let ?f = "\<lambda>l. (ws ! l, zs ! (l - 1), acts ! (l - 1))"
  let ?GW = "\<lambda>l. mat_times (?D l) (transpose_nd (acts ! (l - 1)))"
  let ?GB = "\<lambda>l. mat_times (?D l) (ones N 1)"
  from w t have len: "length zs = ?L" and lena: "length acts = Suc ?L"
    by (simp_all add: valid_weights_def valid_trace_def)
  from ne obtain m where m: "?L = Suc m" by (cases ws) auto
  have N: "ncols y = N" using y by (simp add: shape_eq)
  have g1: "getitem acts (- 1) = Inr (acts ! ?L)"
    using lena by (rule getitem_last)
  have g2: "getitem zs (- 1) = Inr (zs ! m)"
    using len m by (intro getitem_last) simp
  have g3: "getitem acts (- 2) = Inr (acts ! m)"
    using lena m by (intro getitem_last_but_one) simp
  have sy: "shape (acts ! ?L) = (dims ! ?L, N)"
    using valid_trace_activations [OF t, of ?L] len by simp
  have sz: "shape (zs ! m) = (dims ! ?L, N)"
    using valid_trace_zs [OF t, of m] len m by simp
  have sa: "shape (acts ! m) = (dims ! m, N)"
    using valid_trace_activations [OF t, of m] len m by simp
  have lp: "loss_prime (acts ! ?L) y = Inr (lossPrime (acts ! ?L) y)"
    using sy y by (intro loss_prime_same_shape) simp
  have DL: "?D ?L = hadamard (lossPrime (acts ! ?L) y) (sigmaPrime (zs ! m))"
    using m by (subst delta.simps) simp
  have d: "mul (lossPrime (acts ! ?L) y) (sigmaPrime (zs ! m)) = Inr (?D ?L)"
    unfolding DL using sy sz by (intro mul_same_shape) simp
  have sD: "shape (?D ?L) = (dims ! ?L, N)"
    using m by (intro shape_delta [OF w t len]) simp_all
  have gb: "matmul (?D ?L) (ones N 1) = Inr (?GB ?L)"
    using sD by (intro matmul_shapes [where k = N]) simp_all
  have gw: "matmul (?D ?L) (transpose_nd (acts ! m)) = Inr (?GW ?L)"
    using sD sa m by (simp add: matmul_fits shape_eq)
  have z: "zip (slice_back ws (Some (- 1)) (Some 0))
             (zip (slice_back zs (Some (- 2)) None) (slice_back acts (Some (- 3)) None)) =
           map ?f (rev [1..<Suc m])"
    using len lena m
    by (simp add: slice_back_weights slice_back_zs slice_back_activations zip3_map del: upt_Suc)
  have "backward_loop (map ?f (rev [1..<Suc m])) N (?D (Suc m)) [?GW ?L] [?GB ?L] =
         Inr ([?GW ?L] @ map ?GW (rev [1..<Suc m]), [?GB ?L] @ map ?GB (rev [1..<Suc m]))"
    using m by (intro backward_loop_layers [OF w t len]) simp
  then have loop: "backward_loop (map ?f (rev [1..<Suc m])) N (?D ?L) [?GW ?L] [?GB ?L] =
         Inr ([?GW ?L] @ map ?GW (rev [1..<Suc m]), [?GB ?L] @ map ?GB (rev [1..<Suc m]))"
    by (simp only: m)
  have r1: "rev ([?GW ?L] @ map ?GW (rev [1..<Suc m])) = map ?GW [1..<Suc ?L]"
    using m by (simp add: rev_map)
  have r2: "rev ([?GB ?L] @ map ?GB (rev [1..<Suc m])) = map ?GB [1..<Suc ?L]"
    using m by (simp add: rev_map)
  have G: "map ?GW [1..<Suc ?L] = map (gradWeights ws zs acts y) [1..<Suc ?L]"
      "map ?GB [1..<Suc ?L] = map (gradBiases ws zs acts y) [1..<Suc ?L]"
    unfolding gradWeights_def gradBiases_def N by (rule refl)+
  have la: "lookup model ''activations'' = Inr (PList acts)"
    and lz: "lookup model ''z_inputs'' = Inr (PList zs)"
    and lw: "lookup model ''weights'' = Inr (PList ws)"
    using ka kz kw by simp_all
  have "backward_grads y model =
           Inr (rev ([?GW ?L] @ map ?GW (rev [1..<Suc m])), rev ([?GB ?L] @ map ?GB (rev [1..<Suc m])))"
    unfolding backward_grads_def Let_def N
    by (simp only: loop la lz lw ebind_Inr
          getitem_val_PList slice_back_val_PList g1 g2 g3 lp sigma_prime_total d gb gw z
          prod.case slice_back_all)
  then show ?thesis
    unfolding r1 r2 G .
qed

lemma sigma_exact_logistic:
  "sigma x = amap (\<lambda>v. 1 / (1 + exp (- v))) x
   \<and> sigma_elem v = 1 / (1 + exp (- v))
   \<and> sigma_elem 0 = 1 / 2
   \<and> sigma_elem (- v) = 1 - sigma_elem v
   \<and> 0 < sigma_elem v \<and> sigma_elem v < 1
   \<and> sigma_prime x = Inr (amap (\<lambda>v. sigma_elem v * (1 - sigma_elem v)) x)"
proof -
  have a: "sigma x = amap (\<lambda>v. 1 / (1 + exp (- v))) x"
    unfolding sigma_def by (simp add: amap_def sigma_elem_logistic)
  have pos: "0 < 1 + exp (- v)" "0 < 1 + exp v"
    by (simp_all add: add_pos_pos)
  have z: "sigma_elem 0 = 1 / 2"
    by (simp add: sigma_elem_def)
  have sym: "sigma_elem (- v) = 1 - sigma_elem v"
    using pos by (simp add: sigma_elem_logistic exp_minus field_simps)
  have lo: "0 < sigma_elem v"
    using pos by (simp add: sigma_elem_logistic)
  have hi: "sigma_elem v < 1"
    using pos by (simp add: sigma_elem_logistic)
  have l: "sigma_elem v = 1 / (1 + exp (- v))"
    by (rule sigma_elem_logistic)
  have sp: "sigma_prime x = Inr (amap (\<lambda>v. sigma_elem v * (1 - sigma_elem v)) x)"
    by (rule sigma_prime_elementwise)
  from a l z sym lo hi sp show ?thesis
    by (intro conjI)
qed

section \<open>Facts about batches and their columns\<close>

lemma nrows_column [simp]: "nrows (column j A) = nrows A"
  by (simp add: column_def)

lemma ncols_column [simp]: "ncols (column j A) = 1"
  by (simp add: column_def)

lemma shape_column [simp]: "shape (column j A) = (nrows A, 1)"
  by (simp add: shape_def)

lemma el_column [simp]: "i < nrows A \<Longrightarrow> el (column j A) i 0 = el A i j"
  by (simp add: column_def)

lemma nrows_sigma [simp]: "nrows (sigma z) = nrows z"
  by (simp add: sigma_def)

lemma ncols_sigma [simp]: "ncols (sigma z) = ncols z"
  by (simp add: sigma_def)

lemma nrows_plus_bias [simp]: "nrows (plus_bias Z b) = nrows Z"
  by (simp add: plus_bias_def)

lemma ncols_plus_bias [simp]: "ncols (plus_bias Z b) = ncols Z"
  by (simp add: plus_bias_def)

lemma column_amap: "j < ncols Z \<Longrightarrow> column j (amap f Z) = amap f (column j Z)"
  unfolding column_def amap_def by (auto intro!: mk_cong)

lemma column_sigma: "j < ncols Z \<Longrightarrow> column j (sigma Z) = sigma (column j Z)"
  by (simp add: sigma_def column_amap)

lemma column_sigmaPrime: "j < ncols Z \<Longrightarrow> column j (sigmaPrime Z) = sigmaPrime (column j Z)"
  by (simp add: sigmaPrime_def column_amap)

lemma column_plus_bias: "j < ncols Z \<Longrightarrow> column j (plus_bias Z b) = plus_bias (column j Z) b"
  unfolding column_def plus_bias_def by (auto intro!: mk_cong)

lemma column_mat_times:
  "ncols W = nrows A \<Longrightarrow> j < ncols A \<Longrightarrow> column j (mat_times W A) = mat_times W (column j A)"
  unfolding column_def mat_times_def by (auto intro!: mk_cong)

lemma column_hadamard:
  "nrows P = nrows Q \<Longrightarrow> j < ncols P \<Longrightarrow>
   column j (hadamard P Q) = hadamard (column j P) (column j Q)"
  unfolding column_def hadamard_def by (auto intro!: mk_cong)

lemma column_lossPrime:
  "nrows a = nrows y \<Longrightarrow> j < ncols a \<Longrightarrow>
   column j (lossPrime a y) = lossPrime (column j a) (column j y)"
  unfolding column_def lossPrime_def by (auto intro!: mk_cong)

lemma sum_list_upt: "sum_list (map f [0..<n]) = (\<Sum>j<n. f j)"
  by (simp add: interv_sum_list_conv_sum_set_nat atLeast0LessThan)

lemma mat_times_transpose_sum:
  assumes "ncols D = N" and "ncols A = N"
  shows "mat_times D (transpose_nd A) =
           array_sum (nrows D) (nrows A)
             (map (\<lambda>j. mat_times (column j D) (transpose_nd (column j A))) [0..<N])"
proof -
  have "(\<Sum>k<N. el D i k * el (transpose_nd A) k p) =
        sum_list (map (\<lambda>M. el M i p)
          (map (\<lambda>j. mat_times (column j D) (transpose_nd (column j A))) [0..<N]))"
    if "i < nrows D" "p < nrows A" for i p
  proof -
    have "(\<Sum>k<N. el D i k * el (transpose_nd A) k p) = (\<Sum>k<N. el D i k * el A p k)"
      using that assms by (intro sum.cong) (simp_all add: transpose_nd_def)
    also have "\<dots> = (\<Sum>k<N. el (mat_times (column k D) (transpose_nd (column k A))) i p)"
      using that by (intro sum.cong) (simp_all add: mat_times_def transpose_nd_def)
    finally show ?thesis
      by (simp add: comp_def sum_list_upt)
  qed
  then show ?thesis
    unfolding array_sum_def using assms by (subst mat_times_def) (auto intro!: mk_cong)
qed

lemma mat_times_ones_sum:
  assumes "ncols D = N"
  shows "mat_times D (ones N 1) =
           array_sum (nrows D) 1 (map (\<lambda>j. mat_times (column j D) (ones 1 1)) [0..<N])"
proof -
  have "(\<Sum>k<N. el D i k * el (ones N 1) k p) =
        sum_list (map (\<lambda>M. el M i p) (map (\<lambda>j. mat_times (column j D) (ones 1 1)) [0..<N]))"
    if "i < nrows D" "p < 1" for i p
  proof -
    from that have p: "p = 0" by simp
    have "(\<Sum>k<N. el D i k * el (ones N 1) k p) = (\<Sum>k<N. el D i k)"
      using p by (intro sum.cong) (simp_all add: ones_def)
    also have "\<dots> = (\<Sum>k<N. el (mat_times (column k D) (ones 1 1)) i p)"
      using that p by (intro sum.cong) (simp_all add: mat_times_def ones_def)
    finally show ?thesis
      by (simp add: comp_def sum_list_upt)
  qed
  then show ?thesis
    unfolding array_sum_def using assms by (subst mat_times_def) (auto intro!: mk_cong)
qed

lemma mat_times_ones_row_sum:
  "i < nrows D \<Longrightarrow> el (mat_times D (ones (ncols D) 1)) i 0 = (\<Sum>j<ncols D. el D i j)"
  by (simp add: mat_times_def ones_def)

lemma nth_trace_a: "l \<le> length ws \<Longrightarrow> trace_a ws bs x ! l = activation ws bs x l"
  unfolding trace_a_def by (subst nth_map_upt) simp_all

lemma nth_trace_z: "l < length ws \<Longrightarrow> trace_z ws bs x ! l = weighted_input ws bs x (Suc l)"
  unfolding trace_z_def by (subst nth_map_upt) simp_all

lemma length_trace_a [simp]: "length (trace_a ws bs x) = Suc (length ws)"
  by (simp add: trace_a_def)

lemma length_trace_z [simp]: "length (trace_z ws bs x) = length ws"
  by (simp add: trace_z_def del: upt_Suc)

lemma shape_weighted_input:
  assumes "valid_weights dims ws" and "shape x = (dims ! 0, N)" and "l < length ws"
  shows "shape (weighted_input ws bs x (Suc l)) = (dims ! Suc l, N)"
proof -
  have "shape (activation ws bs x l) = (dims ! l, N)"
    using assms by (intro shape_activation) simp_all
  with valid_weights_nth [OF assms(1,3)] show ?thesis
    by (simp add: weighted_input_def shape_eq)
qed

lemma valid_trace_forward:
  assumes w: "valid_weights dims ws" and x: "shape x = (dims ! 0, N)"
  shows "valid_trace dims N (trace_z ws bs x) (trace_a ws bs x)"
proof -
  have "shape (trace_z ws bs x ! l) = (dims ! Suc l, N)" if "l < length ws" for l
    using that shape_weighted_input [OF w x that] by (simp add: nth_trace_z)
  moreover have "shape (trace_a ws bs x ! l) = (dims ! l, N)" if "l < Suc (length ws)" for l
    using that shape_activation [OF w x, of l] by (simp add: nth_trace_a)
  moreover from w have "length dims = Suc (length ws)"
    by (simp add: valid_weights_def)
  ultimately show ?thesis
    by (simp add: valid_trace_def list_all_iff)
qed

lemma forward_eq:
  assumes "model ''weights'' = Some (PList ws)" and "model ''biases'' = Some (PList bs)"
    and "valid_weights dims ws" and "valid_biases dims bs" and "shape x = (dims ! 0, N)"
  shows "forward x model =
           Inr (activation ws bs x (length ws),
                model(''activations'' \<mapsto> PList (trace_a ws bs x),
                      ''z_inputs'' \<mapsto> PList (trace_z ws bs x)))"
proof -
  have "forward_loop (zip (drop 0 ws) (drop 0 bs)) (activation ws bs x 0) [x] [] =
           Inr (activation ws bs x (length ws),
                [x] @ map (activation ws bs x) [Suc 0..<Suc (length ws)],
                [] @ map (weighted_input ws bs x) [Suc 0..<Suc (length ws)])"
    using assms(3-5) by (intro forward_loop_layers) simp_all
  moreover have "[0..<Suc (length ws)] = 0 # [Suc 0..<Suc (length ws)]"
    by (subst upt_rec) simp
  ultimately have "forward_trace x model =
           Inr (activation ws bs x (length ws), trace_a ws bs x, trace_z ws bs x)"
    using assms(1,2) by (simp add: forward_trace_def trace_a_def trace_z_def)
  then show ?thesis by (simp add: forward_def)
qed

lemma forward_backward_eq:
  assumes kw: "model ''weights'' = Some (PList ws)" and kb: "model ''biases'' = Some (PList bs)"
    and w: "valid_weights dims ws" and b: "valid_biases dims bs" and ne: "ws \<noteq> []"
    and x: "shape x = (dims ! 0, N)" and y: "shape y = (dims ! length ws, N)"
  shows "forward_backward x y model =
           Inr (model(''activations'' \<mapsto> PList (trace_a ws bs x),
                      ''z_inputs'' \<mapsto> PList (trace_z ws bs x),
                      ''grad_weights'' \<mapsto>
                         PList (map (gradWeights ws (trace_z ws bs x) (trace_a ws bs x) y)
                                  [1..<Suc (length ws)]),
                      ''grad_biases'' \<mapsto>
                         PList (map (gradBiases ws (trace_z ws bs x) (trace_a ws bs x) y)
                                  [1..<Suc (length ws)])))"
proof -
  let ?m1 = "model(''activations'' \<mapsto> PList (trace_a ws bs x),
                   ''z_inputs'' \<mapsto> PList (trace_z ws bs x))"
  have f: "forward x model = Inr (activation ws bs x (length ws), ?m1)"
    by (rule forward_eq [OF kw kb w b x])
  have k1: "?m1 ''weights'' = Some (PList ws)" using kw by simp
  have k2: "?m1 ''z_inputs'' = Some (PList (trace_z ws bs x))" by simp
  have k3: "?m1 ''activations'' = Some (PList (trace_a ws bs x))" by simp
  have t: "valid_trace dims N (trace_z ws bs x) (trace_a ws bs x)"
    by (rule valid_trace_forward [OF w x])
  have "backward_grads y ?m1 =
           Inr (map (gradWeights ws (trace_z ws bs x) (trace_a ws bs x) y) [1..<Suc (length ws)],
                map (gradBiases ws (trace_z ws bs x) (trace_a ws bs x) y) [1..<Suc (length ws)])"
    by (rule backward_grads_layers [OF k1 k2 k3 w t ne y])
  then show ?thesis
    unfolding forward_backward_def f backward_def by (simp only: sum.case prod.case)
qed

lemma stored_Inr: "model key = Some (PList xs) \<Longrightarrow> stored key (Inr model) = xs"
  by (simp add: stored_def)

lemma column_activation:
  assumes w: "valid_weights dims ws" and x: "shape x = (dims ! 0, N)" and j: "j < N"
  shows "l \<le> length ws \<Longrightarrow>
         column j (activation ws bs x l) = activation ws bs (column j x) l"
proof (induction l)
  case 0
  show ?case by simp
next
  case (Suc l)
  then have l: "l < length ws" "l \<le> length ws" by simp_all
  have sa: "shape (activation ws bs x l) = (dims ! l, N)"
    by (rule shape_activation [OF w x l(2)])
  have "column j (activation ws bs x (Suc l)) =
        sigma (plus_bias (mat_times (ws ! l) (column j (activation ws bs x l))) (bs ! l))"
    using sa j valid_weights_nth [OF w l(1)]
    by (simp add: column_sigma column_plus_bias column_mat_times shape_eq)
  with Suc.IH [OF l(2)] show ?case by simp
qed

lemma column_weighted_input:
  assumes w: "valid_weights dims ws" and x: "shape x = (dims ! 0, N)" and j: "j < N"
    and l: "l < length ws"
  shows "column j (weighted_input ws bs x (Suc l)) = weighted_input ws bs (column j x) (Suc l)"
proof -
  have sa: "shape (activation ws bs x l) = (dims ! l, N)"
    using l by (intro shape_activation [OF w x]) simp
  have "column j (activation ws bs x l) = activation ws bs (column j x) l"
    using l by (intro column_activation [OF w x j]) simp
  then show ?thesis
    using sa j valid_weights_nth [OF w l]
    by (simp add: weighted_input_def column_plus_bias column_mat_times shape_eq)
qed

lemma column_delta:
  assumes w: "valid_weights dims ws" and x: "shape x = (dims ! 0, N)"
    and y: "shape y = (dims ! length ws, N)" and j: "j < N"
  shows "1 \<le> l \<Longrightarrow> l \<le> length ws \<Longrightarrow>
         column j (delta ws (trace_z ws bs x) (trace_a ws bs x) y l) =
           delta ws (trace_z ws bs (column j x)) (trace_a ws bs (column j x)) (column j y) l"
proof (induction "length ws - l" arbitrary: l)
  case 0
  then have l: "l = length ws" "length ws - 1 < length ws" by simp_all
  let ?L = "length ws"
  have sa: "shape (activation ws bs x ?L) = (dims ! ?L, N)"
    by (intro shape_activation [OF w x]) simp
  have S: "Suc (?L - 1) = ?L" using l by simp
  have sz: "shape (weighted_input ws bs x ?L) = (dims ! ?L, N)"
    using shape_weighted_input [OF w x l(2)] S by simp
  have ca: "column j (activation ws bs x ?L) = activation ws bs (column j x) ?L"
    by (intro column_activation [OF w x j]) simp
  have cz: "column j (weighted_input ws bs x ?L) = weighted_input ws bs (column j x) ?L"
    using column_weighted_input [OF w x j l(2)] S by simp
  have "column j (hadamard (lossPrime (activation ws bs x ?L) y)
                           (sigmaPrime (weighted_input ws bs x ?L))) =
        hadamard (lossPrime (activation ws bs (column j x) ?L) (column j y))
                 (sigmaPrime (weighted_input ws bs (column j x) ?L))"
    using sa sz y j
    by (simp add: column_hadamard column_lossPrime column_sigmaPrime shape_eq ca cz)
  moreover have "trace_z ws bs x' ! (?L - Suc 0) = weighted_input ws bs x' ?L" for x'
    using nth_trace_z [OF l(2), of bs x'] S by simp
  ultimately show ?case
    unfolding l(1)
    by (subst (1 2) delta.simps) (simp add: nth_trace_a)
next
  case (Suc n)
  then have l: "l < length ws" "Suc l \<le> length ws" "1 \<le> Suc l" "n = length ws - Suc l"
    "l - 1 < length ws" "Suc (l - 1) = l"
    by simp_all
  let ?D = "delta ws (trace_z ws bs x) (trace_a ws bs x) y"
  let ?Dj = "delta ws (trace_z ws bs (column j x)) (trace_a ws bs (column j x)) (column j y)"
  have t: "valid_trace dims N (trace_z ws bs x) (trace_a ws bs x)"
    by (rule valid_trace_forward [OF w x])
  have sD: "shape (?D (Suc l)) = (dims ! Suc l, N)"
    using l by (intro shape_delta [OF w t]) simp_all
  have sz: "shape (weighted_input ws bs x l) = (dims ! l, N)"
    using shape_weighted_input [OF w x l(5)] l(6) by simp
  have cz: "column j (weighted_input ws bs x l) = weighted_input ws bs (column j x) l"
    using column_weighted_input [OF w x j l(5)] l(6) by simp
  have IH: "column j (?D (Suc l)) = ?Dj (Suc l)"
    by (rule Suc.hyps(1) [OF l(4) l(3) l(2)])
  have "column j (hadamard (mat_times (transpose_nd (ws ! l)) (?D (Suc l)))
                           (sigmaPrime (weighted_input ws bs x l))) =
        hadamard (mat_times (transpose_nd (ws ! l)) (?Dj (Suc l)))
                 (sigmaPrime (weighted_input ws bs (column j x) l))"
    using sD sz j valid_weights_nth [OF w l(1)]
    by (simp add: column_hadamard column_mat_times column_sigmaPrime shape_eq cz IH)
  moreover have "trace_z ws bs x' ! (l - Suc 0) = weighted_input ws bs x' l" for x'
    using nth_trace_z [OF l(5), of bs x'] l(6) by simp
  ultimately show ?case
    using l(1) by (subst (1 2) delta.simps) simp
qed

lemma stored_forward_backward:
  assumes kw: "model ''weights'' = Some (PList ws)" and kb: "model ''biases'' = Some (PList bs)"
    and w: "valid_weights dims ws" and b: "valid_biases dims bs" and ne: "ws \<noteq> []"
    and x: "shape x = (dims ! 0, N)" and y: "shape y = (dims ! length ws, N)"
  shows "\<not> isl (forward_backward x y model)"
    and "stored ''activations'' (forward_backward x y model) = trace_a ws bs x"
    and "stored ''z_inputs'' (forward_backward x y model) = trace_z ws bs x"
    and "stored ''grad_weights'' (forward_backward x y model) =
           map (gradWeights ws (trace_z ws bs x) (trace_a ws bs x) y) [1..<Suc (length ws)]"
    and "stored ''grad_biases'' (forward_backward x y model) =
           map (gradBiases ws (trace_z ws bs x) (trace_a ws bs x) y) [1..<Suc (length ws)]"
  unfolding forward_backward_eq [OF assms]
  by (simp_all add: stored_def)

lemma nth_layers: "l < L \<Longrightarrow> map f [1..<Suc L] ! l = f (Suc l)"
  by (subst nth_map_upt) simp_all

lemma batch_gradients:
  assumes w: "valid_weights dims ws" and x: "shape x = (dims ! 0, N)"
    and y: "shape y = (dims ! length ws, N)" and l: "l < length ws"
  shows "gradWeights ws (trace_z ws bs x) (trace_a ws bs x) y (Suc l) =
           array_sum (dims ! Suc l) (dims ! l)
             (map (\<lambda>j. gradWeights ws (trace_z ws bs (column j x)) (trace_a ws bs (column j x))
                          (column j y) (Suc l)) [0..<N])"
    and "gradBiases ws (trace_z ws bs x) (trace_a ws bs x) y (Suc l) =
           array_sum (dims ! Suc l) 1
             (map (\<lambda>j. gradBiases ws (trace_z ws bs (column j x)) (trace_a ws bs (column j x))
                          (column j y) (Suc l)) [0..<N])"
    and "\<forall>i<dims ! Suc l.
           el (gradBiases ws (trace_z ws bs x) (trace_a ws bs x) y (Suc l)) i 0 =
             (\<Sum>j<N. el (delta ws (trace_z ws bs x) (trace_a ws bs x) y (Suc l)) i j)"
proof -
  let ?D = "delta ws (trace_z ws bs x) (trace_a ws bs x) y (Suc l)"
  let ?Dj = "\<lambda>j. delta ws (trace_z ws bs (column j x)) (trace_a ws bs (column j x)) (column j y) (Suc l)"
  let ?A = "activation ws bs x l"
  have t: "valid_trace dims N (trace_z ws bs x) (trace_a ws bs x)"
    by (rule valid_trace_forward [OF w x])
  have sD: "nrows ?D = dims ! Suc l" "ncols ?D = N"
    using shape_delta [OF w t, of "Suc l" y] l by (simp_all add: shape_eq)
  have sA: "nrows ?A = dims ! l" "ncols ?A = N"
    using shape_activation [OF w x, of l bs] l by (simp_all add: shape_eq)
  have N: "ncols y = N" using y by (simp add: shape_eq)
  have cD: "column j ?D = ?Dj j" if "j < N" for j
    using l by (intro column_delta [OF w x y that]) simp_all
  have cA: "column j ?A = activation ws bs (column j x) l" if "j < N" for j
    using l by (intro column_activation [OF w x that]) simp
  have ta: "trace_a ws bs x' ! l = activation ws bs x' l" for x'
    using l by (intro nth_trace_a) simp
  have "mat_times ?D (transpose_nd ?A) =
          array_sum (nrows ?D) (nrows ?A)
            (map (\<lambda>j. mat_times (column j ?D) (transpose_nd (column j ?A))) [0..<N])"
    by (rule mat_times_transpose_sum [OF sD(2) sA(2)])
  also have "map (\<lambda>j. mat_times (column j ?D) (transpose_nd (column j ?A))) [0..<N] =
             map (\<lambda>j. mat_times (?Dj j) (transpose_nd (activation ws bs (column j x) l))) [0..<N]"
    by (rule map_cong) (simp_all add: cD cA)
  finally show "gradWeights ws (trace_z ws bs x) (trace_a ws bs x) y (Suc l) =
           array_sum (dims ! Suc l) (dims ! l)
             (map (\<lambda>j. gradWeights ws (trace_z ws bs (column j x)) (trace_a ws bs (column j x))
                          (column j y) (Suc l)) [0..<N])"
    by (simp add: gradWeights_def ta sD sA)
  have "mat_times ?D (ones N 1) =
          array_sum (nrows ?D) 1 (map (\<lambda>j. mat_times (column j ?D) (ones 1 1)) [0..<N])"
    by (rule mat_times_ones_sum [OF sD(2)])
  also have "map (\<lambda>j. mat_times (column j ?D) (ones 1 1)) [0..<N] =
             map (\<lambda>j. mat_times (?Dj j) (ones 1 1)) [0..<N]"
    by (rule map_cong) (simp_all add: cD)
  finally show "gradBiases ws (trace_z ws bs x) (trace_a ws bs x) y (Suc l) =
           array_sum (dims ! Suc l) 1
             (map (\<lambda>j. gradBiases ws (trace_z ws bs (column j x)) (trace_a ws bs (column j x))
                          (column j y) (Suc l)) [0..<N])"
    by (simp add: gradBiases_def N sD)
  show "\<forall>i<dims ! Suc l.
           el (gradBiases ws (trace_z ws bs x) (trace_a ws bs x) y (Suc l)) i 0 =
             (\<Sum>j<N. el ?D i j)"
    using mat_times_ones_row_sum [of _ ?D] sD by (simp add: gradBiases_def N)
qed

lemma grad_weights_column_sum:
  assumes w: "valid_weights dims ws" and x: "shape x = (dims ! 0, N)"
    and y: "shape y = (dims ! length ws, N)" and l: "l < length ws"
  shows "\<forall>i<dims ! Suc l. \<forall>k<dims ! l.
           el (gradWeights ws (trace_z ws bs x) (trace_a ws bs x) y (Suc l)) i k =
             (\<Sum>j<N. el (delta ws (trace_z ws bs x) (trace_a ws bs x) y (Suc l)) i j *
                      el (trace_a ws bs x ! l) k j)"
proof (intro allI impI)
  fix i k assume i: "i < dims ! Suc l" and k: "k < dims ! l"
  let ?D = "delta ws (trace_z ws bs x) (trace_a ws bs x) y (Suc l)"
  let ?A = "activation ws bs x l"
  have t: "valid_trace dims N (trace_z ws bs x) (trace_a ws bs x)"
    by (rule valid_trace_forward [OF w x])
  have sD: "nrows ?D = dims ! Suc l" "ncols ?D = N"
    using shape_delta [OF w t, of "Suc l" y] l by (simp_all add: shape_eq)
  have sA: "nrows ?A = dims ! l" "ncols ?A = N"
    using shape_activation [OF w x, of l bs] l by (simp_all add: shape_eq)
  have ta: "trace_a ws bs x ! l = ?A"
    using l by (intro nth_trace_a) simp
  have "el (mat_times ?D (transpose_nd ?A)) i k = (\<Sum>j<N. el ?D i j * el (transpose_nd ?A) j k)"
    using i k by (simp add: mat_times_def transpose_nd_def sD sA)
  also have "\<dots> = (\<Sum>j<N. el ?D i j * el ?A k j)"
    using k by (intro sum.cong) (simp_all add: transpose_nd_def sA)
  finally show "el (gradWeights ws (trace_z ws bs x) (trace_a ws bs x) y (Suc l)) i k =
             (\<Sum>j<N. el ?D i j * el (trace_a ws bs x ! l) k j)"
    by (simp add: gradWeights_def ta)
qed

section \<open>Facts about float64 rounding\<close>

lemma round_even_le: "y \<le> of_int n \<Longrightarrow> round_even y \<le> n"
proof -
  assume y: "y \<le> of_int n"
  then have f: "\<lfloor>y\<rfloor> \<le> n" by (simp add: floor_le_iff)
  show ?thesis
  proof (cases "\<lfloor>y\<rfloor> = n")
    case True
    then have "of_int n \<le> y" by (metis of_int_floor_le)
    with y have "y = of_int n" by simp
    then show ?thesis by (simp add: round_even_def)
  next
    case False
    with f have "\<lfloor>y\<rfloor> + 1 \<le> n" by simp
    then show ?thesis by (simp add: round_even_def)
  qed
qed

lemma round_even_ge: "of_int n \<le> y \<Longrightarrow> n \<le> round_even y"
proof -
  assume "of_int n \<le> y"
  then have "n \<le> \<lfloor>y\<rfloor>" by (simp add: le_floor_iff)
  then show ?thesis by (simp add: round_even_def)
qed

lemma quantum_pos: "0 < quantum r"
  by (simp add: quantum_def)

lemma floor_log2: "0 < r \<Longrightarrow> \<lfloor>log 2 r\<rfloor> = e \<longleftrightarrow> 2 powr of_int e \<le> r \<and> r < 2 powr of_int (e + 1)"
  by (rule floor_log_eq_powr_iff) simp_all

lemma round_even_near:
  assumes "of_int n \<le> y" and "y \<le> of_int n + 1 / 2" and "even n"
  shows "round_even y = n"
proof -
  from assms have "\<lfloor>y\<rfloor> = n" by (intro floor_unique) simp_all
  with assms show ?thesis by (simp add: round_even_def)
qed

lemma pow2_int: "0 \<le> k \<Longrightarrow> (2::real) powr of_int k = of_int (2 ^ nat k)"
  by (simp add: powr_real_of_int)

lemma fl_nonneg: "0 \<le> r \<Longrightarrow> 0 \<le> fl r"
proof (cases "r = 0")
  case True
  then show ?thesis by (simp add: fl_def)
next
  case False
  assume "0 \<le> r"
  then have "of_int 0 \<le> r / quantum r" using quantum_pos [of r] by simp
  then have "0 \<le> round_even (r / quantum r)" by (rule round_even_ge)
  with False quantum_pos [of r] show ?thesis by (simp add: fl_def)
qed

lemma fl_upper:
  assumes r: "0 < r" and le: "r \<le> 2 powr of_int k" and k: "- 1074 \<le> k"
  shows "fl r \<le> 2 powr of_int k"
proof -
  define e where "e = \<lfloor>log 2 r\<rfloor>"
  define m where "m = max e (- 1022) - 52"
  have "2 powr of_int e \<le> r" using floor_log2 [OF r, of e] by (simp add: e_def)
  with le have "(2::real) powr of_int e \<le> 2 powr of_int k" by linarith
  then have ek: "e \<le> k" by simp
  with k have mk: "m \<le> k" by (simp add: m_def)
  have q: "quantum r = 2 powr of_int m" using r by (simp add: quantum_def m_def e_def)
  have "r / quantum r \<le> 2 powr of_int k / 2 powr of_int m"
    unfolding q using le by (simp add: divide_right_mono)
  also have "\<dots> = 2 powr of_int (k - m)" by (simp add: powr_diff)
  also have "\<dots> = of_int (2 ^ nat (k - m))" using mk by (intro pow2_int) simp
  finally have "round_even (r / quantum r) \<le> 2 ^ nat (k - m)" by (rule round_even_le)
  then have "of_int (round_even (r / quantum r)) \<le> (of_int (2 ^ nat (k - m)) :: real)"
    by (simp only: of_int_le_iff)
  also have "(of_int (2 ^ nat (k - m)) :: real) = 2 powr of_int (k - m)"
    using mk by (intro pow2_int [symmetric]) simp
  finally have "quantum r * of_int (round_even (r / quantum r)) \<le> 2 powr of_int m * 2 powr of_int (k - m)"
    unfolding q by (simp add: mult_left_mono)
  also have "\<dots> = 2 powr of_int k" by (simp add: powr_add [symmetric])
  finally show ?thesis using r by (simp add: fl_def)
qed

lemma fl_lower:
  assumes le: "2 powr of_int k \<le> r" and k: "- 1074 \<le> k"
  shows "2 powr of_int k \<le> fl r"
proof -
  have r: "0 < r" using le by (rule less_le_trans [rotated]) simp
  define e where "e = \<lfloor>log 2 r\<rfloor>"
  define m where "m = max e (- 1022) - 52"
  have e: "2 powr of_int e \<le> r" "r < 2 powr of_int (e + 1)"
    using floor_log2 [OF r, of e] by (simp_all add: e_def)
  with le have "(2::real) powr of_int k < 2 powr of_int (e + 1)" by linarith
  then have ke: "k \<le> e" by simp
  with k have me: "m \<le> e" by (simp add: m_def)
  have q: "quantum r = 2 powr of_int m" using r by (simp add: quantum_def m_def e_def)
  define N :: int where "N = 2 ^ nat (e - m)"
  have N: "(of_int N :: real) = 2 powr of_int (e - m)"
    unfolding N_def using me by (intro pow2_int [symmetric]) simp
  also have "\<dots> = 2 powr of_int e / 2 powr of_int m" by (simp add: powr_diff)
  also have "\<dots> \<le> r / quantum r"
    unfolding q using e(1) by (simp add: divide_right_mono)
  finally have "N \<le> round_even (r / quantum r)" by (rule round_even_ge)
  then have "(of_int N :: real) \<le> of_int (round_even (r / quantum r))"
    by (simp only: of_int_le_iff)
  then have "2 powr of_int (e - m) \<le> (of_int (round_even (r / quantum r)) :: real)"
    unfolding N .
  then have "2 powr of_int m * 2 powr of_int (e - m) \<le> quantum r * of_int (round_even (r / quantum r))"
    unfolding q by (intro mult_left_mono) simp_all
  moreover have "(2::real) powr of_int m * 2 powr of_int (e - m) = 2 powr of_int e"
    by (simp add: powr_add [symmetric])
  ultimately have "2 powr of_int e \<le> quantum r * of_int (round_even (r / quantum r))"
    by simp
  moreover have "(2::real) powr of_int k \<le> 2 powr of_int e" using ke by simp
  ultimately have "2 powr of_int k \<le> quantum r * of_int (round_even (r / quantum r))"
    by (rule order_trans [rotated])
  then show ?thesis using r by (simp add: fl_def)
qed

lemma fl_pow2: "- 1074 \<le> k \<Longrightarrow> fl (2 powr of_int k) = 2 powr of_int k"
  by (intro antisym fl_upper fl_lower) simp_all

lemma fl_one [simp]: "fl 1 = 1"
  using fl_pow2 [of 0] by simp

lemma fl_two [simp]: "fl 2 = 2"
  using fl_pow2 [of 1] by simp

lemma fl_half [simp]: "fl (1 / 2) = 1 / 2"
  using fl_pow2 [of "- 1"] by (simp add: powr_minus field_simps)

lemma fl_one_plus:
  assumes "0 \<le> t" and "t \<le> 2 powr of_int (- 53)"
  shows "fl (1 + t) = 1"
proof -
  have t53: "(2::real) powr of_int (- 53) = 1 / 2 ^ 53"
    by (simp add: powr_neg_numeral)
  from assms(2) have t: "t \<le> 1 / 2 ^ 53"
    unfolding t53 .
  have r: "0 < 1 + t" "1 \<le> 1 + t" "1 + t < 2"
    using assms(1) t by simp_all
  have "\<lfloor>log 2 (1 + t)\<rfloor> = 0"
    using floor_log2 [OF r(1), of 0] r by simp
  then have q: "quantum (1 + t) = 2 powr of_int (- 52)"
    using r by (simp add: quantum_def)
  have q52: "(2::real) powr of_int (- 52) = 1 / 2 ^ 52"
    by (simp add: powr_neg_numeral)
  have y: "(1 + t) / quantum (1 + t) = 2 ^ 52 + t * 2 ^ 52"
    unfolding q q52 by (simp add: field_simps)
  have "t * 2 ^ 52 \<le> 1 / 2" using t by (simp add: field_simps)
  then have re: "round_even ((1 + t) / quantum (1 + t)) = 2 ^ 52"
    unfolding y using assms(1) by (intro round_even_near) simp_all
  have "fl (1 + t) = quantum (1 + t) * of_int (round_even ((1 + t) / quantum (1 + t)))"
    using r by (simp add: fl_def)
  also have "\<dots> = (1 / 2 ^ 52) * of_int (2 ^ 52)"
    unfolding re unfolding q q52 ..
  also have "\<dots> = 1" by simp
  finally show ?thesis .
qed

lemma exp_37_large: "(2::real) ^ 53 \<le> exp 37"
proof -
  have "(145 / 128 :: real) \<le> exp (1 / 8)"
    using exp_lower_Taylor_quadratic [of "1 / 8 :: real"] by (simp add: power2_eq_square)
  then have "(145 / 128 :: real) ^ 296 \<le> exp (1 / 8) ^ 296"
    by (intro power_mono) simp_all
  also have "exp (1 / 8 :: real) ^ 296 = exp (of_nat 296 * (1 / 8))"
    by (rule exp_of_nat_mult [symmetric])
  also have "\<dots> = exp 37" by simp
  finally have "(145 / 128 :: real) ^ 296 \<le> exp 37" .
  moreover have "(2::real) ^ 53 \<le> (145 / 128) ^ 296"
    by (simp add: power_divide)
  ultimately show ?thesis by linarith
qed

lemma sigma_f64_37: "sigma_f64 37 = 1"
proof -
  have "exp (- 37 :: real) \<le> 1 / 2 ^ 53"
    using exp_37_large by (simp add: exp_minus field_simps)
  also have "(1 / 2 ^ 53 :: real) = 2 powr of_int (- 53)"
    by (simp add: powr_neg_numeral)
  finally have "fl (exp (- 37)) \<le> 2 powr of_int (- 53)"
    by (intro fl_upper) simp_all
  moreover have "0 \<le> fl (exp (- 37))" by (intro fl_nonneg) simp
  ultimately have "fl (1 + fl (exp (- 37))) = 1" by (intro fl_one_plus)
  then show ?thesis by (simp add: sigma_f64_def)
qed

lemma sigma_f64_zero: "sigma_f64 0 = 1 / 2"
  by (simp add: sigma_f64_def)

lemma fl_unit_interval:
  assumes "0 \<le> r" and "r \<le> 1"
  shows "0 \<le> fl r \<and> fl r \<le> 1"
proof (cases "r = 0")
  case True
  then show ?thesis by (simp add: fl_def)
next
  case False
  with assms have "0 < r" "r \<le> 2 powr of_int 0" by simp_all
  then have "fl r \<le> 2 powr of_int 0" by (intro fl_upper) simp_all
  with fl_nonneg [OF assms(1)] show ?thesis by simp
qed

lemma fl_ge_one: "1 \<le> r \<Longrightarrow> 1 \<le> fl r"
  using fl_lower [of 0 r] by simp

lemma fl_reciprocal_unit:
  assumes "0 \<le> t"
  shows "0 \<le> fl (1 / fl (1 + t)) \<and> fl (1 / fl (1 + t)) \<le> 1"
proof -
  from assms have "1 \<le> fl (1 + t)" by (intro fl_ge_one) simp
  then have "0 \<le> 1 / fl (1 + t)" "1 / fl (1 + t) \<le> 1" by simp_all
  then show ?thesis by (rule fl_unit_interval)
qed

lemma sigma_f64_bounds: "0 \<le> sigma_f64 x \<and> sigma_f64 x \<le> 1"
proof (cases "x \<ge> 0")
  case True
  have "0 \<le> fl (exp (- x))" by (intro fl_nonneg) simp
  from fl_reciprocal_unit [OF this] True show ?thesis by (simp add: sigma_f64_def)
next
  case False
  have "0 \<le> fl (exp x)" by (intro fl_nonneg) simp
  from fl_reciprocal_unit [OF this]
  have "0 \<le> 1 - fl (1 / fl (1 + fl (exp x)))" "1 - fl (1 / fl (1 + fl (exp x))) \<le> 1"
    by simp_all
  from fl_unit_interval [OF this] False show ?thesis by (simp add: sigma_f64_def)
qed

lemma sigma_f64_symmetry: "0 < x \<Longrightarrow> sigma_f64 (- x) = fl (1 - sigma_f64 x)"
  by (simp add: sigma_f64_def)

lemma sigma_f64_minus_37: "sigma_f64 (- 37) = 0"
  using sigma_f64_symmetry [of 37] by (simp add: sigma_f64_37 fl_def)

lemma sigma_prime_f64_nonneg: "0 \<le> sigma_prime_f64 x"
proof -
  have "0 \<le> sigma_f64 x" "sigma_f64 x \<le> 1"
    using sigma_f64_bounds [of x] by simp_all
  then have "0 \<le> sigma_f64 x * fl (1 - sigma_f64 x)"
    by (intro mult_nonneg_nonneg fl_nonneg) simp_all
  then show ?thesis
    unfolding sigma_prime_f64_def by (rule fl_nonneg)
qed

lemma round_even_of_int [simp]: "round_even (of_int n) = n"
  by (simp add: round_even_def)

lemma fl_grid:
  assumes m0: "0 \<le> m" and m1: "m \<le> 2 ^ 53"
  shows "fl (of_int m / 2 ^ 53) = of_int m / 2 ^ 53"
proof -
  consider "m = 0" | "m = 2 ^ 53" | "0 < m" "m < 2 ^ 53" using m0 m1 by linarith
  then show ?thesis
  proof cases
    case 1
    then show ?thesis by (simp add: fl_def)
  next
    case 2
    then show ?thesis by simp
  next
    case 3
    define r :: real where "r = of_int m / 2 ^ 53"
    define e where "e = \<lfloor>log 2 r\<rfloor>"
    from 3 have r0: "0 < r" by (simp add: r_def)
    from 3 have "(of_int m :: real) < of_int (2 ^ 53)" by (simp only: of_int_less_iff)
    then have r1: "r < 1" by (simp add: r_def)
    from 3 have "(1::real) \<le> of_int m" by simp
    then have r53: "2 powr of_int (- 53) \<le> r"
      by (simp add: r_def powr_neg_numeral divide_right_mono)
    have fe: "2 powr of_int e \<le> r" "r < 2 powr of_int (e + 1)"
      using floor_log2 [OF r0, of e] by (simp_all add: e_def)
    from fe(1) r1 have "(2::real) powr of_int e < 1" by linarith
    with powr_less_cancel_iff [of 2 "of_int e" 0] have "real_of_int e < 0" by simp
    then have e1: "e \<le> - 1" by simp
    from fe(2) r53 have "(2::real) powr of_int (- 53) < 2 powr of_int (e + 1)" by linarith
    then have e53: "- 53 \<le> e" by simp
    have q: "quantum r = 2 powr of_int (e - 52)"
      using r0 e53 by (simp add: quantum_def e_def)
    define N where "N = m * 2 ^ nat (- 1 - e)"
    have "r / quantum r = of_int m * (2 powr of_int (- 53) / 2 powr of_int (e - 52))"
      unfolding q by (simp add: r_def powr_neg_numeral)
    also have "2 powr of_int (- 53) / 2 powr of_int (e - 52) = (2::real) powr of_int (- 1 - e)"
      by (simp add: powr_diff [symmetric])
    also have "\<dots> = of_int (2 ^ nat (- 1 - e))"
      using e1 by (intro pow2_int) simp
    finally have d: "r / quantum r = of_int N"
      by (simp add: N_def)
    have "fl r = quantum r * of_int (round_even (r / quantum r))"
      using r0 by (simp add: fl_def)
    also have "\<dots> = quantum r * (r / quantum r)"
      unfolding d by simp
    also have "\<dots> = r"
      using quantum_pos [of r] by simp
    finally show ?thesis by (simp add: r_def)
  qed
qed

lemma fl_on_grid:
  assumes t0: "1 / 2 \<le> t" and t1: "t \<le> 1"
  shows "\<exists>m. 2 ^ 52 \<le> m \<and> m \<le> 2 ^ 53 \<and> fl t = of_int m / 2 ^ 53"
proof (cases "t = 1")
  case True
  then show ?thesis by (intro exI [of _ "2 ^ 53"]) simp
next
  case False
  with t1 have t1': "t < 1" by simp
  from t0 have tp: "0 < t" by simp
  have "\<lfloor>log 2 t\<rfloor> = - 1"
    using t0 t1' by (subst floor_log2 [OF tp]) (simp add: powr_neg_numeral powr_minus)
  then have q: "quantum t = 2 powr of_int (- 53)"
    using tp by (simp add: quantum_def)
  then have q': "quantum t = 1 / 2 ^ 53"
    by (simp add: powr_neg_numeral)
  define m where "m = round_even (t * 2 ^ 53)"
  have d: "t / quantum t = t * 2 ^ 53"
    unfolding q' by simp
  have "(of_int (2 ^ 52) :: real) \<le> t * 2 ^ 53"
    using t0 by simp
  then have a: "2 ^ 52 \<le> m"
    unfolding m_def by (rule round_even_ge)
  have "t * 2 ^ 53 \<le> (of_int (2 ^ 53) :: real)"
    using t1 by simp
  then have b: "m \<le> 2 ^ 53"
    unfolding m_def by (rule round_even_le)
  have "fl t = quantum t * of_int (round_even (t / quantum t))"
    using tp by (simp add: fl_def)
  also have "\<dots> = quantum t * of_int m"
    by (simp only: d m_def)
  also have "\<dots> = 1 / 2 ^ 53 * of_int m"
    by (simp only: q')
  finally have "fl t = of_int m / 2 ^ 53"
    by simp
  with a b show ?thesis by blast
qed

lemma sigma_f64_symmetric: "sigma_f64 (- x) = fl (1 - sigma_f64 x)"
proof -
  consider "0 < x" | "x = 0" | "x < 0" by linarith
  then show ?thesis
  proof cases
    case 1
    then show ?thesis by (rule sigma_f64_symmetry)
  next
    case 2
    then show ?thesis by (simp add: sigma_f64_zero)
  next
    case 3
    define u where "u = fl (1 + fl (exp x))"
    define s where "s = fl (1 / u)"
    from 3 have "0 \<le> exp x" "exp x \<le> 1" by simp_all
    then have e: "0 \<le> fl (exp x)" "fl (exp x) \<le> 1"
      using fl_unit_interval [of "exp x"] by simp_all
    then have "1 \<le> 1 + fl (exp x)" "0 < 1 + fl (exp x)" "1 + fl (exp x) \<le> 2 powr of_int 1"
      by simp_all
    then have u: "1 \<le> u" "u \<le> 2"
      using fl_ge_one [of "1 + fl (exp x)"] fl_upper [of "1 + fl (exp x)" 1]
      by (simp_all add: u_def)
    then have "1 / 2 \<le> 1 / u" "1 / u \<le> 1"
      by (simp_all add: field_simps)
    from fl_on_grid [OF this] obtain m where
      m: "2 ^ 52 \<le> m" "m \<le> 2 ^ 53" and sm: "s = of_int m / 2 ^ 53"
      by (auto simp: s_def)
    have o: "1 - s = of_int (2 ^ 53 - m) / 2 ^ 53"
      by (simp add: sm field_simps)
    have c: "fl (1 - s) = 1 - s"
      unfolding o using m by (intro fl_grid) simp_all
    have g: "fl s = s"
      unfolding sm using m by (intro fl_grid) simp_all
    from 3 have "sigma_f64 (- x) = s" "sigma_f64 x = fl (1 - s)"
      by (simp_all add: sigma_f64_def s_def u_def)
    then show ?thesis
      by (simp add: c g)
  qed
qed

section \<open>The claims\<close>

text \<open>
  C1, as the notebook behaves.  For a model with \<open>L \<ge> 1\<close> layers that holds a forward trace
  for a batch of \<open>N\<close> columns, and a target \<open>y\<close> of shape \<open>(dims[L], N)\<close>, \<open>backward\<close> stores under
  \<open>'grad_weights'\<close> and \<open>'grad_biases'\<close> the gradients of the layers \<open>1, ..., L\<close> in this order,
  where \<open>delta[L] = lossPrime(a[L], y) \<odot> sigmaPrime(z[L])\<close>, for \<open>l\<close> from \<open>L - 1\<close> down to 1
  \<open>delta[l] = (weights[l+1]\<^sup>T \<cdot> delta[l+1]) \<odot> sigmaPrime(z[l])\<close>, and for every layer
  \<open>gradBiases[l] = delta[l] \<cdot> ones(N, 1)\<close> and \<open>gradWeights[l] = delta[l] \<cdot> a[l-1]\<^sup>T\<close>.
  The example has three layers with gradients that differ from layer to layer, so that it
  runs the loop over the layers 2 and 1 and shows the order of the stored lists.
\<close>

theorem backward_layers:
  assumes "model ''weights'' = Some (PList weights)" and "model ''z_inputs'' = Some (PList zs)"
    and "model ''activations'' = Some (PList activations)"
    and "valid_weights dims weights" and "valid_trace dims N zs activations"
    and "weights \<noteq> []" and "shape y = (dims ! length weights, N)"
  shows "backward y model =
           Inr (model(''grad_weights'' \<mapsto>
                        PList (map (gradWeights weights zs activations y) [1..<Suc (length weights)]),
                      ''grad_biases'' \<mapsto>
                        PList (map (gradBiases weights zs activations y) [1..<Suc (length weights)])))
       \<and> delta weights zs activations y (length weights) =
           hadamard (lossPrime (activations ! length weights) y) (sigmaPrime (zs ! (length weights - 1)))
       \<and> (\<forall>l. 1 \<le> l \<and> l < length weights \<longrightarrow>
             delta weights zs activations y l =
               hadamard (mat_times (transpose_nd (weights ! l)) (delta weights zs activations y (Suc l)))
                        (sigmaPrime (zs ! (l - 1))))
       \<and> (\<forall>l. gradBiases weights zs activations y l =
                  mat_times (delta weights zs activations y l) (ones N 1)
              \<and> gradWeights weights zs activations y l =
                  mat_times (delta weights zs activations y l) (transpose_nd (activations ! (l - 1))))"
proof (intro conjI allI impI)
  show "backward y model =
           Inr (model(''grad_weights'' \<mapsto>
                        PList (map (gradWeights weights zs activations y) [1..<Suc (length weights)]),
                      ''grad_biases'' \<mapsto>
                        PList (map (gradBiases weights zs activations y) [1..<Suc (length weights)])))"
    using backward_grads_layers [OF assms] by (simp add: backward_def)
next
  show "delta weights zs activations y (length weights) =
           hadamard (lossPrime (activations ! length weights) y) (sigmaPrime (zs ! (length weights - 1)))"
    by (subst delta.simps) simp
next
  fix l assume "1 \<le> l \<and> l < length weights"
  then show "delta weights zs activations y l =
               hadamard (mat_times (transpose_nd (weights ! l)) (delta weights zs activations y (Suc l)))
                        (sigmaPrime (zs ! (l - 1)))"
    by (subst delta.simps) simp
next
  fix l
  from assms(7) have "ncols y = N" by (simp add: shape_eq)
  then show "gradBiases weights zs activations y l =
                  mat_times (delta weights zs activations y l) (ones N 1)"
    by (simp add: gradBiases_def)
next
  fix l
  show "gradWeights weights zs activations y l =
                  mat_times (delta weights zs activations y l) (transpose_nd (activations ! (l - 1)))"
    by (simp add: gradWeights_def)
qed

theorem backward_layers_witness:
  "valid_weights [1, 1, 1, 1] [NDArray 1 1 [[1]], NDArray 1 1 [[2]], NDArray 1 1 [[2]]]
   \<and> valid_trace [1, 1, 1, 1] 1 [NDArray 1 1 [[0]], NDArray 1 1 [[0]], NDArray 1 1 [[0]]]
        [NDArray 1 1 [[4]], NDArray 1 1 [[1 / 2]], NDArray 1 1 [[1 / 2]], NDArray 1 1 [[1 / 2]]]
   \<and> backward (NDArray 1 1 [[0]])
        [''weights'' \<mapsto> PList [NDArray 1 1 [[1]], NDArray 1 1 [[2]], NDArray 1 1 [[2]]],
         ''z_inputs'' \<mapsto> PList [NDArray 1 1 [[0]], NDArray 1 1 [[0]], NDArray 1 1 [[0]]],
         ''activations'' \<mapsto>
            PList [NDArray 1 1 [[4]], NDArray 1 1 [[1 / 2]], NDArray 1 1 [[1 / 2]], NDArray 1 1 [[1 / 2]]]] =
      Inr [''weights'' \<mapsto> PList [NDArray 1 1 [[1]], NDArray 1 1 [[2]], NDArray 1 1 [[2]]],
           ''z_inputs'' \<mapsto> PList [NDArray 1 1 [[0]], NDArray 1 1 [[0]], NDArray 1 1 [[0]]],
           ''activations'' \<mapsto>
              PList [NDArray 1 1 [[4]], NDArray 1 1 [[1 / 2]], NDArray 1 1 [[1 / 2]], NDArray 1 1 [[1 / 2]]],
           ''grad_weights'' \<mapsto> PList [NDArray 1 1 [[1 / 8]], NDArray 1 1 [[1 / 32]], NDArray 1 1 [[1 / 16]]],
           ''grad_biases'' \<mapsto> PList [NDArray 1 1 [[1 / 32]], NDArray 1 1 [[1 / 16]], NDArray 1 1 [[1 / 8]]]]"
proof -
  let ?ws = "[NDArray (Suc 0) (Suc 0) [[1]], NDArray (Suc 0) (Suc 0) [[2]], NDArray (Suc 0) (Suc 0) [[2]]]"
  let ?zs = "[NDArray (Suc 0) (Suc 0) [[0]], NDArray (Suc 0) (Suc 0) [[0]], NDArray (Suc 0) (Suc 0) [[0]]]"
  let ?as = "[NDArray (Suc 0) (Suc 0) [[4]], NDArray (Suc 0) (Suc 0) [[1 / 2]],
              NDArray (Suc 0) (Suc 0) [[1 / 2]], NDArray (Suc 0) (Suc 0) [[1 / 2]]]"
  let ?y = "NDArray (Suc 0) (Suc 0) [[0]]"
  let ?dims = "[Suc 0, Suc 0, Suc 0, Suc 0]"
  let ?m = "[''weights'' \<mapsto> PList ?ws, ''z_inputs'' \<mapsto> PList ?zs, ''activations'' \<mapsto> PList ?as]"
  have h1: "?m ''weights'' = Some (PList ?ws)" and h2: "?m ''z_inputs'' = Some (PList ?zs)"
    and h3: "?m ''activations'' = Some (PList ?as)"
    by simp_all
  have h4: "valid_weights ?dims ?ws"
    by (simp add: valid_weights_def shape_def upt_rec)
  have h5: "valid_trace ?dims (Suc 0) ?zs ?as"
    by (simp add: valid_trace_def shape_def upt_rec)
  have h6: "?ws \<noteq> []" by simp
  have h7: "shape ?y = (?dims ! length ?ws, Suc 0)" by (simp add: shape_def)
  have s: "sigmaPrime (NDArray (Suc 0) (Suc 0) [[0]]) = NDArray (Suc 0) (Suc 0) [[1 / 4]]"
    by (simp add: sigmaPrime_def amap_def sigma_elem_def mk_def el_def)
  have d3: "delta ?ws ?zs ?as ?y (Suc (Suc (Suc 0))) = NDArray (Suc 0) (Suc 0) [[1 / 8]]"
    by (subst delta.simps) (simp add: s hadamard_def lossPrime_def mk_def el_def)
  have d2: "delta ?ws ?zs ?as ?y (Suc (Suc 0)) = NDArray (Suc 0) (Suc 0) [[1 / 16]]"
    by (subst delta.simps)
       (simp add: d3 s hadamard_def mat_times_def transpose_nd_def mk_def el_def)
  have d1: "delta ?ws ?zs ?as ?y (Suc 0) = NDArray (Suc 0) (Suc 0) [[1 / 32]]"
    by (subst delta.simps)
       (simp add: d2 s hadamard_def mat_times_def transpose_nd_def mk_def el_def)
  have gw: "gradWeights ?ws ?zs ?as ?y (Suc 0) = NDArray (Suc 0) (Suc 0) [[1 / 8]]"
    "gradWeights ?ws ?zs ?as ?y (Suc (Suc 0)) = NDArray (Suc 0) (Suc 0) [[1 / 32]]"
    "gradWeights ?ws ?zs ?as ?y (Suc (Suc (Suc 0))) = NDArray (Suc 0) (Suc 0) [[1 / 16]]"
    unfolding gradWeights_def d1 d2 d3
    by (simp_all add: mat_times_def transpose_nd_def mk_def el_def)
  have gb: "gradBiases ?ws ?zs ?as ?y (Suc 0) = NDArray (Suc 0) (Suc 0) [[1 / 32]]"
    "gradBiases ?ws ?zs ?as ?y (Suc (Suc 0)) = NDArray (Suc 0) (Suc 0) [[1 / 16]]"
    "gradBiases ?ws ?zs ?as ?y (Suc (Suc (Suc 0))) = NDArray (Suc 0) (Suc 0) [[1 / 8]]"
    unfolding gradBiases_def d1 d2 d3
    by (simp_all add: mat_times_def ones_def mk_def el_def)
  have u: "[1..<Suc (length ?ws)] = [Suc 0, Suc (Suc 0), Suc (Suc (Suc 0))]"
    by (simp add: upt_rec)
  have l: "map (gradWeights ?ws ?zs ?as ?y) [1..<Suc (length ?ws)] =
             [NDArray (Suc 0) (Suc 0) [[1 / 8]], NDArray (Suc 0) (Suc 0) [[1 / 32]],
              NDArray (Suc 0) (Suc 0) [[1 / 16]]]"
    "map (gradBiases ?ws ?zs ?as ?y) [1..<Suc (length ?ws)] =
             [NDArray (Suc 0) (Suc 0) [[1 / 32]], NDArray (Suc 0) (Suc 0) [[1 / 16]],
              NDArray (Suc 0) (Suc 0) [[1 / 8]]]"
    unfolding u by (simp_all only: list.map gw gb)
  from backward_layers [OF h1 h2 h3 h4 h5 h6 h7]
  have "backward ?y ?m =
           Inr (?m(''grad_weights'' \<mapsto> PList (map (gradWeights ?ws ?zs ?as ?y) [1..<Suc (length ?ws)]),
                   ''grad_biases'' \<mapsto> PList (map (gradBiases ?ws ?zs ?as ?y) [1..<Suc (length ?ws)])))"
    by (rule conjunct1)
  then have r: "backward ?y ?m =
      Inr (?m(''grad_weights'' \<mapsto> PList [NDArray (Suc 0) (Suc 0) [[1 / 8]], NDArray (Suc 0) (Suc 0) [[1 / 32]],
                                       NDArray (Suc 0) (Suc 0) [[1 / 16]]],
              ''grad_biases'' \<mapsto> PList [NDArray (Suc 0) (Suc 0) [[1 / 32]], NDArray (Suc 0) (Suc 0) [[1 / 16]],
                                      NDArray (Suc 0) (Suc 0) [[1 / 8]]]))"
    by (simp only: l)
  show ?thesis
    unfolding One_nat_def by (intro conjI) (fact h4 h5 r)+
qed

text \<open>
  The claim C1 as it is written, for every model holding a forward trace, fails on the
  model without layers: \<open>forward\<close> leaves a trace in it, with \<open>'z_inputs'\<close> the empty list, and
  \<open>backward\<close> then raises \<open>IndexError\<close> at \<open>model['z_inputs'][-1]\<close> and stores no gradients.
\<close>

theorem backward_zero_layers_counterexample:
  "forward (NDArray 1 1 [[0]]) [''weights'' \<mapsto> PList [], ''biases'' \<mapsto> PList [], ''nlayers'' \<mapsto> PInt 0] =
     Inr (NDArray 1 1 [[0]],
          [''weights'' \<mapsto> PList [], ''biases'' \<mapsto> PList [], ''nlayers'' \<mapsto> PInt 0,
           ''activations'' \<mapsto> PList [NDArray 1 1 [[0]]], ''z_inputs'' \<mapsto> PList []])
   \<and> backward (NDArray 1 1 [[0]])
        [''weights'' \<mapsto> PList [], ''biases'' \<mapsto> PList [], ''nlayers'' \<mapsto> PInt 0,
         ''activations'' \<mapsto> PList [NDArray 1 1 [[0]]], ''z_inputs'' \<mapsto> PList []] =
     Inl (IndexError,
          [''weights'' \<mapsto> PList [], ''biases'' \<mapsto> PList [], ''nlayers'' \<mapsto> PInt 0,
           ''activations'' \<mapsto> PList [NDArray 1 1 [[0]]], ''z_inputs'' \<mapsto> PList []])"
  by (simp add: forward_def forward_trace_def backward_def backward_grads_def getitem_def)

text \<open>
  C2.  For a model whose \<open>L\<close> weight matrices and bias columns fit the layer sizes, and an
  input batch \<open>x\<close> of shape \<open>(dims[0], N)\<close>, \<open>forward\<close> returns \<open>a[L]\<close>, where \<open>a[0] = x\<close>,
  \<open>z[l] = weights[l] \<cdot> a[l-1] + biases[l]\<close> with the bias added to every column, and
  \<open>a[l] = sigma(z[l])\<close>.  The output has shape \<open>(dims[L], N)\<close>, and the model then holds
  \<open>'activations'\<close>, the \<open>L + 1\<close> arrays \<open>a[0], ..., a[L]\<close>, and \<open>'z_inputs'\<close>, the \<open>L\<close> arrays
  \<open>z[1], ..., z[L]\<close>.
\<close>

theorem forward_layers:
  assumes "model ''weights'' = Some (PList weights)" and "model ''biases'' = Some (PList biases)"
    and "valid_weights dims weights" and "valid_biases dims biases"
    and "shape x = (dims ! 0, N)"
  shows "forward x model =
           Inr (activation weights biases x (length weights),
                model(''activations'' \<mapsto> PList (map (activation weights biases x) [0..<Suc (length weights)]),
                      ''z_inputs'' \<mapsto> PList (map (weighted_input weights biases x) [1..<Suc (length weights)])))
       \<and> shape (activation weights biases x (length weights)) = (dims ! length weights, N)
       \<and> length (map (activation weights biases x) [0..<Suc (length weights)]) = length weights + 1
       \<and> length (map (weighted_input weights biases x) [1..<Suc (length weights)]) = length weights
       \<and> activation weights biases x 0 = x
       \<and> (\<forall>l. weighted_input weights biases x (Suc l) =
                  plus_bias (mat_times (weights ! l) (activation weights biases x l)) (biases ! l)
              \<and> activation weights biases x (Suc l) = sigma (weighted_input weights biases x (Suc l)))"
proof -
  have "forward x model =
           Inr (activation weights biases x (length weights),
                model(''activations'' \<mapsto> PList (trace_a weights biases x),
                      ''z_inputs'' \<mapsto> PList (trace_z weights biases x)))"
    by (rule forward_eq [OF assms])
  moreover have "shape (activation weights biases x (length weights)) = (dims ! length weights, N)"
    using assms(3,5) by (intro shape_activation) simp_all
  ultimately show ?thesis
    by (simp add: trace_a_def trace_z_def weighted_input_def del: upt_Suc)
qed

theorem forward_layers_witness:
  "valid_weights [1, 1] [mk 1 1 (\<lambda>i j. 2)] \<and> valid_biases [1, 1] [mk 1 1 (\<lambda>i j. 0)]
   \<and> shape (mk 1 1 (\<lambda>i j. 0)) = ([1, 1] ! 0, 1)
   \<and> forward (mk 1 1 (\<lambda>i j. 0))
        [''weights'' \<mapsto> PList [mk 1 1 (\<lambda>i j. 2)], ''biases'' \<mapsto> PList [mk 1 1 (\<lambda>i j. 0)]] =
      Inr (mk 1 1 (\<lambda>i j. 1 / 2),
           [''weights'' \<mapsto> PList [mk 1 1 (\<lambda>i j. 2)], ''biases'' \<mapsto> PList [mk 1 1 (\<lambda>i j. 0)],
            ''activations'' \<mapsto> PList [mk 1 1 (\<lambda>i j. 0), mk 1 1 (\<lambda>i j. 1 / 2)],
            ''z_inputs'' \<mapsto> PList [mk 1 1 (\<lambda>i j. 0)]])"
proof -
  let ?W = "mk 1 1 (\<lambda>i j. 2)" and ?b = "mk 1 1 (\<lambda>i j. 0)" and ?x = "mk 1 1 (\<lambda>i j. 0)"
  let ?m = "[''weights'' \<mapsto> PList [?W], ''biases'' \<mapsto> PList [?b]]"
  have h1: "?m ''weights'' = Some (PList [?W])" and h2: "?m ''biases'' = Some (PList [?b])"
    by simp_all
  have h3: "valid_weights [1, 1] [?W]" and h4: "valid_biases [1, 1] [?b]"
    by (simp_all add: valid_weights_def valid_biases_def)
  have h5: "shape ?x = ([1, 1] ! 0, 1)" by simp
  have z: "weighted_input [?W] [?b] ?x (Suc 0) = mk 1 1 (\<lambda>i j. 0)"
    by (simp add: weighted_input_def plus_bias_def mat_times_def mk_eq_iff)
  have a: "activation [?W] [?b] ?x (Suc 0) = mk 1 1 (\<lambda>i j. 1 / 2)"
    using z by (simp add: weighted_input_def sigma_def amap_def sigma_elem_def mk_eq_iff)
  have as: "map (activation [?W] [?b] ?x) [0..<Suc (length [?W])] = [?x, mk 1 1 (\<lambda>i j. 1 / 2)]"
    using a by (simp add: upt_rec del: activation.simps(2))
  have zs: "map (weighted_input [?W] [?b] ?x) [1..<Suc (length [?W])] = [mk 1 1 (\<lambda>i j. 0)]"
    using z by (simp add: upt_rec)
  have al: "activation [?W] [?b] ?x (length [?W]) = mk 1 1 (\<lambda>i j. 1 / 2)"
    using a by simp
  from forward_layers [OF h1 h2 h3 h4 h5]
  have "forward ?x ?m =
           Inr (activation [?W] [?b] ?x (length [?W]),
                ?m(''activations'' \<mapsto> PList (map (activation [?W] [?b] ?x) [0..<Suc (length [?W])]),
                   ''z_inputs'' \<mapsto> PList (map (weighted_input [?W] [?b] ?x) [1..<Suc (length [?W])])))"
    by (rule conjunct1)
  then have "forward ?x ?m =
      Inr (mk 1 1 (\<lambda>i j. 1 / 2),
           ?m(''activations'' \<mapsto> PList [?x, mk 1 1 (\<lambda>i j. 1 / 2)],
              ''z_inputs'' \<mapsto> PList [mk 1 1 (\<lambda>i j. 0)]))"
    by (simp only: as zs al)
  with h3 h4 h5 show ?thesis by (intro conjI)
qed

text \<open>
  C3, as the notebook behaves.  Take at least two dimensions, all positive, such that
  NumPy can create the arrays: every weight matrix stays within the largest array size,
  and all entries together fit into the free memory.  Then \<open>initialize_model\<close> returns a
  dictionary with exactly the keys \<open>'weights'\<close>, \<open>'biases'\<close> and \<open>'nlayers'\<close>, where \<open>'nlayers'\<close>
  is \<open>len(dimensions) - 1\<close> and there are that many weight matrices and bias columns; those
  of layer \<open>l\<close> hold \<open>dimensions[l]\<close> rows of \<open>dimensions[l-1]\<close> entries, and \<open>dimensions[l]\<close>
  rows of one entry.
\<close>

theorem initialize_model_shapes:
  assumes "2 \<le> length dimensions" and "\<forall>d\<in>set dimensions. 0 < d"
    and "\<forall>l<length dimensions - 1. 8 * (dimensions ! Suc l * dimensions ! l) \<le> max_intp"
    and "entries_needed dimensions \<le> free s"
  shows "\<exists>weights biases s'.
           initialize_model dimensions s =
             Inr (Map.empty(''weights'' \<mapsto> PList weights, ''biases'' \<mapsto> PList biases,
                            ''nlayers'' \<mapsto> PInt (int (length dimensions) - 1)), s')
         \<and> length weights = length dimensions - 1 \<and> length biases = length dimensions - 1
         \<and> (\<forall>l<length dimensions - 1.
               has_shape (weights ! l) (nat (dimensions ! Suc l)) (nat (dimensions ! l))
             \<and> has_shape (biases ! l) (nat (dimensions ! Suc l)) 1)"
proof -
  let ?L = "length dimensions - 1"
  from assms(1) have n: "nat (int (length dimensions) - 1) = ?L" by simp
  have "\<forall>l\<in>set [0..<?L]. Suc l < length dimensions \<and> 0 < dimensions ! l \<and> 0 < dimensions ! Suc l
                    \<and> 8 * (dimensions ! Suc l * dimensions ! l) \<le> max_intp"
  proof
    fix l assume "l \<in> set [0..<?L]"
    then have l: "Suc l < length dimensions" "l < length dimensions" "l < ?L" by auto
    then have "dimensions ! l \<in> set dimensions" "dimensions ! Suc l \<in> set dimensions"
      by (simp_all only: nth_mem)
    with assms(2,3) l
    show "Suc l < length dimensions \<and> 0 < dimensions ! l \<and> 0 < dimensions ! Suc l
                    \<and> 8 * (dimensions ! Suc l * dimensions ! l) \<le> max_intp"
      by simp
  qed
  moreover from assms(4) have "sum_list (map (layer_entries dimensions) [0..<?L]) \<le> free s"
    by (simp add: entries_needed_def)
  ultimately obtain ws bs s' where
    run: "initialize_loop dimensions [0..<?L] [] [] s = Inr ([] @ ws, [] @ bs, s')"
    and len: "length ws = length [0..<?L]" "length bs = length [0..<?L]"
    and sh: "\<forall>k<length [0..<?L].
               has_shape (ws ! k) (nat (dimensions ! Suc ([0..<?L] ! k))) (nat (dimensions ! ([0..<?L] ! k)))
             \<and> has_shape (bs ! k) (nat (dimensions ! Suc ([0..<?L] ! k))) 1"
    using initialize_loop_ok [of "[0..<?L]" dimensions s "[]" "[]"] by blast
  have "initialize_model dimensions s =
             Inr (Map.empty(''weights'' \<mapsto> PList ws, ''biases'' \<mapsto> PList bs,
                            ''nlayers'' \<mapsto> PInt (int (length dimensions) - 1)), s')"
    using run by (simp add: initialize_model_def Let_def n)
  moreover have "\<forall>l<?L. has_shape (ws ! l) (nat (dimensions ! Suc l)) (nat (dimensions ! l))
             \<and> has_shape (bs ! l) (nat (dimensions ! Suc l)) 1"
    using sh by simp
  ultimately show ?thesis using len by auto
qed

theorem initialize_model_shapes_witness:
  "2 \<le> length [2, 1, 2 :: int] \<and> entries_needed [2, 1, 2] \<le> free (NpState real 10)
   \<and> (\<exists>s'. initialize_model [2, 1, 2] (NpState real 10) =
              Inr ([''weights'' \<mapsto> PList [NDArray 1 2 [[0, 1]], NDArray 2 1 [[3], [4]]],
                    ''biases'' \<mapsto> PList [NDArray 1 1 [[2]], NDArray 2 1 [[5], [6]]],
                    ''nlayers'' \<mapsto> PInt 2], s'))
   \<and> has_shape (NDArray 1 2 [[0, 1]]) 1 2 \<and> has_shape (NDArray 1 1 [[2]]) 1 1
   \<and> has_shape (NDArray 2 1 [[3], [4]]) 2 1 \<and> has_shape (NDArray 2 1 [[5], [6]]) 2 1"
proof -
  have h1: "2 \<le> length [2, 1, 2 :: int]" by simp
  have h2: "\<forall>d\<in>set [2, 1, 2 :: int]. 0 < d" by simp
  have h3: "\<forall>l<length [2, 1, 2 :: int] - 1. 8 * ([2, 1, 2] ! Suc l * [2, 1, 2] ! l) \<le> max_intp"
    by (simp add: max_intp_def less_Suc_eq numeral_2_eq_2)
  have h4: "entries_needed [2, 1, 2] \<le> free (NpState real 10)"
    by (simp add: entries_needed_def layer_entries_def upt_rec)
  from initialize_model_shapes [OF h1 h2 h3 h4] obtain weights biases s' where
    run: "initialize_model [2, 1, 2] (NpState real 10) =
             Inr (Map.empty(''weights'' \<mapsto> PList weights, ''biases'' \<mapsto> PList biases,
                            ''nlayers'' \<mapsto> PInt (int (length [2, 1, 2 :: int]) - 1)), s')"
    and sh: "\<forall>l<length [2, 1, 2 :: int] - 1.
               has_shape (weights ! l) (nat ([2, 1, 2] ! Suc l)) (nat ([2, 1, 2] ! l))
             \<and> has_shape (biases ! l) (nat ([2, 1, 2] ! Suc l)) 1"
    by blast
  from initialize_model_example obtain s2 where
    ex: "initialize_model [2, 1, 2] (NpState real 10) =
           Inr ([''weights'' \<mapsto> PList [NDArray 1 2 [[0, 1]], NDArray 2 1 [[3], [4]]],
                 ''biases'' \<mapsto> PList [NDArray 1 1 [[2]], NDArray 2 1 [[5], [6]]],
                 ''nlayers'' \<mapsto> PInt 2], s2)"
    by blast
  from run have m: "[''weights'' \<mapsto> PList weights, ''biases'' \<mapsto> PList biases,
                     ''nlayers'' \<mapsto> PInt (int (length [2, 1, 2 :: int]) - 1)] =
                    [''weights'' \<mapsto> PList [NDArray 1 2 [[0, 1]], NDArray 2 1 [[3], [4]]],
                     ''biases'' \<mapsto> PList [NDArray 1 1 [[2]], NDArray 2 1 [[5], [6]]],
                     ''nlayers'' \<mapsto> PInt 2]"
    unfolding ex by simp
  from fun_cong [OF m, of "''weights''"]
  have w: "weights = [NDArray 1 2 [[0, 1]], NDArray 2 1 [[3], [4]]]" by simp
  from fun_cong [OF m, of "''biases''"]
  have b: "biases = [NDArray 1 1 [[2]], NDArray 2 1 [[5], [6]]]" by simp
  from sh [rule_format, of 0] sh [rule_format, of 1]
  have "has_shape (weights ! 0) 1 2" "has_shape (biases ! 0) 1 1"
    "has_shape (weights ! 1) 2 1" "has_shape (biases ! 1) 2 1"
    by simp_all
  then have hs: "has_shape (NDArray 1 2 [[0, 1]]) 1 2" "has_shape (NDArray 1 1 [[2]]) 1 1"
    "has_shape (NDArray 2 1 [[3], [4]]) 2 1" "has_shape (NDArray 2 1 [[5], [6]]) 2 1"
    unfolding w b by simp_all
  from h1 h4 initialize_model_example hs show ?thesis by (intro conjI)
qed

text \<open>
  The claim C3 as it is written, for every list of positive dimensions, fails on
  \<open>[2^63, 1]\<close>: both entries are positive, and \<open>np.random.randn\<close> raises \<open>ValueError\<close>.
\<close>

theorem initialize_model_huge_counterexample:
  "2 \<le> length [9223372036854775808, 1 :: int] \<and> (0 :: int) < 9223372036854775808 \<and> (0 :: int) < 1
   \<and> isl (initialize_model [9223372036854775808, 1] (NpState real 10))"
proof -
  have u: "[0..<nat (int (length [9223372036854775808, 1 :: int]) - 1)] = [0]" by simp
  have "randn 1 9223372036854775808 (NpState real 10) = Inl ValueError"
    by (simp add: randn_def nonzero_dim_def max_intp_def)
  then have "isl (initialize_model [9223372036854775808, 1] (NpState real 10))"
    unfolding initialize_model_def Let_def u by (simp add: getitem_def)
  then show ?thesis by simp
qed

text \<open>
  C4, as the notebook behaves.  On a model as \<open>backward\<close> leaves it, which holds the trace
  under \<open>'z_inputs'\<close> and \<open>'activations'\<close> and gradients of the shapes of the weights and biases,
  \<open>update\<close> returns a model in which the weights of every layer are
  \<open>weights[l] - eta * grad_weights[l]\<close> and the biases \<open>biases[l] - eta * grad_biases[l]\<close>.
  The keys \<open>'z_inputs'\<close>, \<open>'activations'\<close>, \<open>'grad_weights'\<close> and \<open>'grad_biases'\<close> are gone from
  it, its other keys are those it had, and every key other than \<open>'weights'\<close> and \<open>'biases'\<close>
  that remains, such as \<open>'nlayers'\<close>, holds its old value.  This holds for every learning
  rate \<open>eta\<close>.
\<close>

theorem update_step:
  assumes "model ''weights'' = Some (PList weights)" and "model ''biases'' = Some (PList biases)"
    and "model ''grad_weights'' = Some (PList grad_weights)"
    and "model ''grad_biases'' = Some (PList grad_biases)"
    and "model ''z_inputs'' \<noteq> None" and "model ''activations'' \<noteq> None"
    and "valid_weights dims weights" and "valid_weights dims grad_weights"
    and "valid_biases dims biases" and "valid_biases dims grad_biases"
  shows "\<exists>model'. update eta model = Inr model'
       \<and> model' ''weights'' =
            Some (PList (map (\<lambda>l. descend eta (weights ! l) (grad_weights ! l)) [0..<length weights]))
       \<and> model' ''biases'' =
            Some (PList (map (\<lambda>l. descend eta (biases ! l) (grad_biases ! l)) [0..<length weights]))
       \<and> dom model' = dom model - transient_keys
       \<and> (\<forall>key. key \<notin> {''weights'', ''biases''} \<union> transient_keys \<longrightarrow> model' key = model key)"
proof -
  let ?nw = "map (\<lambda>l. descend eta (weights ! l) (grad_weights ! l)) [0..<length weights]"
  let ?nb = "map (\<lambda>l. descend eta (biases ! l) (grad_biases ! l)) [0..<length weights]"
  let ?m1 = "model(''weights'' \<mapsto> PList ?nw, ''biases'' \<mapsto> PList ?nb)"
  let ?m' = "?m1(''z_inputs'' := None, ''activations'' := None, ''grad_weights'' := None,
                ''grad_biases'' := None)"
  have "update_loop (zip (drop 0 weights) (zip (drop 0 biases) (zip (drop 0 grad_weights) (drop 0 grad_biases))))
          eta [] [] = Inr ([] @ ?nw, [] @ ?nb)"
    using assms(7-10) by (intro update_loop_layers) simp_all
  then have p: "update_params eta model = Inr (?nw, ?nb)"
    using assms(1-4) by (simp add: update_params_def)
  from assms(5,6) obtain zv av where
    z: "model ''z_inputs'' = Some zv" and a: "model ''activations'' = Some av"
    by auto
  have "del_keys [''z_inputs'', ''activations'', ''grad_weights'', ''grad_biases''] ?m1 = Inr ?m'"
    by (rule del_keys_four [of _ _ zv _ av _ "PList grad_weights" _ "PList grad_biases"])
       (simp_all add: z a assms(3,4))
  then have u: "update eta model = Inr ?m'"
    by (simp only: update_def p sum.case prod.case)
  have d: "dom ?m' = dom model - transient_keys"
    unfolding transient_keys_def
    by (rule dom_after_update [of model "''weights''" "PList weights" "''biases''" "PList biases"])
       (simp_all add: assms(1,2))
  have k: "\<forall>key. key \<notin> {''weights'', ''biases''} \<union> transient_keys \<longrightarrow> ?m' key = model key"
    unfolding transient_keys_def
    by (intro allI impI others_after_update) simp
  have w: "?m' ''weights'' = Some (PList ?nw)" and b: "?m' ''biases'' = Some (PList ?nb)"
    by simp_all
  show ?thesis
    by (rule exI [of _ ?m'], intro conjI) (fact u w b d k)+
qed

theorem update_step_witness:
  "\<exists>model'.
     update (1 / 2)
       [''weights'' \<mapsto> PList [mk 1 1 (\<lambda>i j. 3)], ''biases'' \<mapsto> PList [mk 1 1 (\<lambda>i j. 1)],
        ''activations'' \<mapsto> PList [mk 1 1 (\<lambda>i j. 0), mk 1 1 (\<lambda>i j. 1 / 2)],
        ''z_inputs'' \<mapsto> PList [mk 1 1 (\<lambda>i j. 0)],
        ''grad_weights'' \<mapsto> PList [mk 1 1 (\<lambda>i j. 2)],
        ''grad_biases'' \<mapsto> PList [mk 1 1 (\<lambda>i j. 4)]] = Inr model'
     \<and> model' ''weights'' = Some (PList [mk 1 1 (\<lambda>i j. 2)])
     \<and> model' ''biases'' = Some (PList [mk 1 1 (\<lambda>i j. - 1)])
     \<and> model' ''z_inputs'' = None \<and> model' ''activations'' = None
     \<and> model' ''grad_weights'' = None \<and> model' ''grad_biases'' = None"
proof -
  let ?W = "mk 1 1 (\<lambda>i j. 3)" and ?b = "mk 1 1 (\<lambda>i j. 1)"
  let ?dW = "mk 1 1 (\<lambda>i j. 2)" and ?db = "mk 1 1 (\<lambda>i j. 4)"
  let ?m = "[''weights'' \<mapsto> PList [?W], ''biases'' \<mapsto> PList [?b],
        ''activations'' \<mapsto> PList [mk 1 1 (\<lambda>i j. 0), mk 1 1 (\<lambda>i j. 1 / 2)],
        ''z_inputs'' \<mapsto> PList [mk 1 1 (\<lambda>i j. 0)],
        ''grad_weights'' \<mapsto> PList [?dW],
        ''grad_biases'' \<mapsto> PList [?db]]"
  have h1: "?m ''weights'' = Some (PList [?W])" and h2: "?m ''biases'' = Some (PList [?b])"
    and h3: "?m ''grad_weights'' = Some (PList [?dW])" and h4: "?m ''grad_biases'' = Some (PList [?db])"
    and h5: "?m ''z_inputs'' \<noteq> None" and h6: "?m ''activations'' \<noteq> None"
    by simp_all
  have h7: "valid_weights [1, 1] [?W]" and h8: "valid_weights [1, 1] [?dW]"
    and h9: "valid_biases [1, 1] [?b]" and h10: "valid_biases [1, 1] [?db]"
    by (simp_all add: valid_weights_def valid_biases_def)
  from update_step [OF h1 h2 h3 h4 h5 h6 h7 h8 h9 h10, of "1 / 2"] obtain model' where
    u: "update (1 / 2) ?m = Inr model'"
    and w: "model' ''weights'' = Some (PList (map (\<lambda>l. descend (1 / 2) ([?W] ! l) ([?dW] ! l)) [0..<length [?W]]))"
    and b: "model' ''biases'' = Some (PList (map (\<lambda>l. descend (1 / 2) ([?b] ! l) ([?db] ! l)) [0..<length [?W]]))"
    and d: "dom model' = dom ?m - transient_keys"
    by blast
  have "descend (1 / 2) ?W ?dW = mk 1 1 (\<lambda>i j. 2)" "descend (1 / 2) ?b ?db = mk 1 1 (\<lambda>i j. - 1)"
    by (simp_all add: descend_def mk_eq_iff)
  with w b have w': "model' ''weights'' = Some (PList [mk 1 1 (\<lambda>i j. 2)])"
    and b': "model' ''biases'' = Some (PList [mk 1 1 (\<lambda>i j. - 1)])"
    by simp_all
  have "''z_inputs'' \<notin> dom model'" "''activations'' \<notin> dom model'"
    "''grad_weights'' \<notin> dom model'" "''grad_biases'' \<notin> dom model'"
    unfolding d by (simp_all add: transient_keys_def)
  then have n: "model' ''z_inputs'' = None" "model' ''activations'' = None"
    "model' ''grad_weights'' = None" "model' ''grad_biases'' = None"
    by (simp_all add: domIff)
  show ?thesis
    by (rule exI [of _ model'], intro conjI) (fact u w' b' n)+
qed

text \<open>
  The claim C4 as it is written, for every model holding gradients, fails on a model that
  holds gradients and no trace: \<open>update\<close> replaces the weights and biases, then raises
  \<open>KeyError\<close> at \<open>del model['z_inputs']\<close>, and the gradients are still in the dictionary.
\<close>

theorem update_without_trace_counterexample:
  "update 1 [''weights'' \<mapsto> PList [NDArray 1 1 [[3]]], ''biases'' \<mapsto> PList [NDArray 1 1 [[1]]],
             ''grad_weights'' \<mapsto> PList [NDArray 1 1 [[2]]],
             ''grad_biases'' \<mapsto> PList [NDArray 1 1 [[4]]]] =
     Inl (KeyError,
          [''weights'' \<mapsto> PList [NDArray 1 1 [[1]]], ''biases'' \<mapsto> PList [NDArray 1 1 [[- 3]]],
           ''grad_weights'' \<mapsto> PList [NDArray 1 1 [[2]]],
           ''grad_biases'' \<mapsto> PList [NDArray 1 1 [[4]]]])"
proof -
  let ?m = "[''weights'' \<mapsto> PList [NDArray 1 1 [[3]]], ''biases'' \<mapsto> PList [NDArray 1 1 [[1]]],
             ''grad_weights'' \<mapsto> PList [NDArray 1 1 [[2]]],
             ''grad_biases'' \<mapsto> PList [NDArray 1 1 [[4]]]]"
  have W: "sub (NDArray (Suc 0) (Suc 0) [[3]]) (amap ((*) 1) (NDArray (Suc 0) (Suc 0) [[2]])) = Inr (NDArray (Suc 0) (Suc 0) [[1]])"
    by (simp add: sub_def broadcast2_def amap_def mk_1_1 el_def bidx_def)
  have b: "sub (NDArray (Suc 0) (Suc 0) [[1]]) (amap ((*) 1) (NDArray (Suc 0) (Suc 0) [[4]])) = Inr (NDArray (Suc 0) (Suc 0) [[- 3]])"
    by (simp add: sub_def broadcast2_def amap_def mk_1_1 el_def bidx_def)
  have p: "update_params 1 ?m = Inr ([NDArray 1 1 [[1]]], [NDArray 1 1 [[- 3]]])"
    by (simp add: update_params_def W b)
  have "update 1 ?m =
          Inl (KeyError, ?m(''weights'' \<mapsto> PList [NDArray 1 1 [[1]]],
                            ''biases'' \<mapsto> PList [NDArray 1 1 [[- 3]]]))"
    unfolding update_def p by simp
  moreover have "?m(''weights'' \<mapsto> PList [NDArray 1 1 [[1]]], ''biases'' \<mapsto> PList [NDArray 1 1 [[- 3]]]) =
     [''weights'' \<mapsto> PList [NDArray 1 1 [[1]]], ''biases'' \<mapsto> PList [NDArray 1 1 [[- 3]]],
      ''grad_weights'' \<mapsto> PList [NDArray 1 1 [[2]]],
      ''grad_biases'' \<mapsto> PList [NDArray 1 1 [[4]]]]"
    by (rule ext) simp
  ultimately show ?thesis by simp
qed

text \<open>
  C5.  Take a model with \<open>L \<ge> 1\<close> well-shaped layers, a batch \<open>X\<close> of \<open>N\<close> columns and targets \<open>Y\<close>.
  Running \<open>forward\<close> and then \<open>backward\<close> succeeds on the batch and on each of its columns
  alone, from the same parameters, and for every layer the batch's \<open>grad_weights\<close> entry is
  the sum over the columns \<open>j\<close> of the entries obtained from column \<open>j\<close> alone, and likewise
  for \<open>grad_biases\<close>.  The batch's bias gradient is, row by row, the sum of \<open>delta[l]\<close> over
  the batch columns, and its weight gradient at \<open>(i, k)\<close> is the sum over the batch columns
  \<open>j\<close> of \<open>delta[l][i, j] * a[l-1][k, j]\<close>: totals, not averages.
\<close>

theorem batch_gradient_is_sum:
  assumes "model ''weights'' = Some (PList weights)" and "model ''biases'' = Some (PList biases)"
    and "valid_weights dims weights" and "valid_biases dims biases" and "weights \<noteq> []"
    and "shape X = (dims ! 0, N)" and "shape Y = (dims ! length weights, N)"
  shows "\<not> isl (forward_backward X Y model)
       \<and> (\<forall>j<N. \<not> isl (forward_backward (column j X) (column j Y) model))
       \<and> (\<forall>l<length weights.
             stored ''grad_weights'' (forward_backward X Y model) ! l =
               array_sum (dims ! Suc l) (dims ! l)
                 (map (\<lambda>j. stored ''grad_weights''
                              (forward_backward (column j X) (column j Y) model) ! l) [0..<N])
           \<and> stored ''grad_biases'' (forward_backward X Y model) ! l =
               array_sum (dims ! Suc l) 1
                 (map (\<lambda>j. stored ''grad_biases''
                              (forward_backward (column j X) (column j Y) model) ! l) [0..<N])
           \<and> (\<forall>i<dims ! Suc l.
                 el (stored ''grad_biases'' (forward_backward X Y model) ! l) i 0 =
                   (\<Sum>j<N. el (delta weights (stored ''z_inputs'' (forward_backward X Y model))
                                      (stored ''activations'' (forward_backward X Y model)) Y (Suc l)) i j))
           \<and> (\<forall>i<dims ! Suc l. \<forall>k<dims ! l.
                 el (stored ''grad_weights'' (forward_backward X Y model) ! l) i k =
                   (\<Sum>j<N. el (delta weights (stored ''z_inputs'' (forward_backward X Y model))
                                      (stored ''activations'' (forward_backward X Y model)) Y (Suc l)) i j *
                            el (stored ''activations'' (forward_backward X Y model) ! l) k j)))"
proof -
  note batch = stored_forward_backward [OF assms]
  have cx: "shape (column j X) = (dims ! 0, 1)" for j
    using assms(6) by (simp add: shape_eq)
  have cy: "shape (column j Y) = (dims ! length weights, 1)" for j
    using assms(7) by (simp add: shape_eq)
  note col = stored_forward_backward [OF assms(1-5) cx cy]
  have "stored ''grad_weights'' (forward_backward X Y model) ! l =
               array_sum (dims ! Suc l) (dims ! l)
                 (map (\<lambda>j. stored ''grad_weights''
                              (forward_backward (column j X) (column j Y) model) ! l) [0..<N])
           \<and> stored ''grad_biases'' (forward_backward X Y model) ! l =
               array_sum (dims ! Suc l) 1
                 (map (\<lambda>j. stored ''grad_biases''
                              (forward_backward (column j X) (column j Y) model) ! l) [0..<N])
           \<and> (\<forall>i<dims ! Suc l.
                 el (stored ''grad_biases'' (forward_backward X Y model) ! l) i 0 =
                   (\<Sum>j<N. el (delta weights (stored ''z_inputs'' (forward_backward X Y model))
                                      (stored ''activations'' (forward_backward X Y model)) Y (Suc l)) i j))
           \<and> (\<forall>i<dims ! Suc l. \<forall>k<dims ! l.
                 el (stored ''grad_weights'' (forward_backward X Y model) ! l) i k =
                   (\<Sum>j<N. el (delta weights (stored ''z_inputs'' (forward_backward X Y model))
                                      (stored ''activations'' (forward_backward X Y model)) Y (Suc l)) i j *
                            el (stored ''activations'' (forward_backward X Y model) ! l) k j))"
    if l: "l < length weights" for l
    unfolding batch(2-5) col(4,5)
    using batch_gradients [OF assms(3,6,7) l, of biases]
      grad_weights_column_sum [OF assms(3,6,7) l, of biases] l
    by (simp only: nth_layers)
  with batch(1) col(1) show ?thesis by blast
qed

theorem batch_gradient_is_sum_witness:
  "valid_weights [1, 1] [NDArray 1 1 [[1]]] \<and> valid_biases [1, 1] [NDArray 1 1 [[- 2]]]
   \<and> shape (NDArray 1 2 [[2, 2]]) = ([1, 1] ! 0, 2)
   \<and> \<not> isl (forward_backward (NDArray 1 2 [[2, 2]]) (NDArray 1 2 [[0, - 1 / 2]])
               [''weights'' \<mapsto> PList [NDArray 1 1 [[1]]], ''biases'' \<mapsto> PList [NDArray 1 1 [[- 2]]]])
   \<and> stored ''grad_weights''
         (forward_backward (NDArray 1 2 [[2, 2]]) (NDArray 1 2 [[0, - 1 / 2]])
            [''weights'' \<mapsto> PList [NDArray 1 1 [[1]]], ''biases'' \<mapsto> PList [NDArray 1 1 [[- 2]]]]) =
       [NDArray 1 1 [[3 / 4]]]
   \<and> stored ''grad_biases''
         (forward_backward (NDArray 1 2 [[2, 2]]) (NDArray 1 2 [[0, - 1 / 2]])
            [''weights'' \<mapsto> PList [NDArray 1 1 [[1]]], ''biases'' \<mapsto> PList [NDArray 1 1 [[- 2]]]]) =
       [NDArray 1 1 [[3 / 8]]]
   \<and> stored ''grad_weights''
         (forward_backward (column 0 (NDArray 1 2 [[2, 2]])) (column 0 (NDArray 1 2 [[0, - 1 / 2]]))
            [''weights'' \<mapsto> PList [NDArray 1 1 [[1]]], ''biases'' \<mapsto> PList [NDArray 1 1 [[- 2]]]]) =
       [NDArray 1 1 [[1 / 4]]]
   \<and> stored ''grad_weights''
         (forward_backward (column 1 (NDArray 1 2 [[2, 2]])) (column 1 (NDArray 1 2 [[0, - 1 / 2]]))
            [''weights'' \<mapsto> PList [NDArray 1 1 [[1]]], ''biases'' \<mapsto> PList [NDArray 1 1 [[- 2]]]]) =
       [NDArray 1 1 [[1 / 2]]]
   \<and> stored ''grad_biases''
         (forward_backward (column 0 (NDArray 1 2 [[2, 2]])) (column 0 (NDArray 1 2 [[0, - 1 / 2]]))
            [''weights'' \<mapsto> PList [NDArray 1 1 [[1]]], ''biases'' \<mapsto> PList [NDArray 1 1 [[- 2]]]]) =
       [NDArray 1 1 [[1 / 8]]]
   \<and> stored ''grad_biases''
         (forward_backward (column 1 (NDArray 1 2 [[2, 2]])) (column 1 (NDArray 1 2 [[0, - 1 / 2]]))
            [''weights'' \<mapsto> PList [NDArray 1 1 [[1]]], ''biases'' \<mapsto> PList [NDArray 1 1 [[- 2]]]]) =
       [NDArray 1 1 [[1 / 4]]]
   \<and> stored ''grad_weights''
         (forward_backward (NDArray 1 2 [[2, 2]]) (NDArray 1 2 [[0, - 1 / 2]])
            [''weights'' \<mapsto> PList [NDArray 1 1 [[1]]], ''biases'' \<mapsto> PList [NDArray 1 1 [[- 2]]]]) ! 0 =
       array_sum 1 1
         [stored ''grad_weights''
            (forward_backward (column 0 (NDArray 1 2 [[2, 2]])) (column 0 (NDArray 1 2 [[0, - 1 / 2]]))
               [''weights'' \<mapsto> PList [NDArray 1 1 [[1]]], ''biases'' \<mapsto> PList [NDArray 1 1 [[- 2]]]]) ! 0,
          stored ''grad_weights''
            (forward_backward (column 1 (NDArray 1 2 [[2, 2]])) (column 1 (NDArray 1 2 [[0, - 1 / 2]]))
               [''weights'' \<mapsto> PList [NDArray 1 1 [[1]]], ''biases'' \<mapsto> PList [NDArray 1 1 [[- 2]]]]) ! 0]"
proof -
  let ?W = "NDArray (Suc 0) (Suc 0) [[1]]" and ?b = "NDArray (Suc 0) (Suc 0) [[- 2]]"
  let ?X = "NDArray (Suc 0) (Suc (Suc 0)) [[2, 2]]" and ?Y = "NDArray (Suc 0) (Suc (Suc 0)) [[0, - 1 / 2]]"
  let ?dims = "[Suc 0, Suc 0]"
  let ?m = "[''weights'' \<mapsto> PList [?W], ''biases'' \<mapsto> PList [?b]]"
  have h1: "?m ''weights'' = Some (PList [?W])" and h2: "?m ''biases'' = Some (PList [?b])"
    by simp_all
  have h3: "valid_weights ?dims [?W]" and h4: "valid_biases ?dims [?b]"
    by (simp_all add: valid_weights_def valid_biases_def shape_def)
  have h5: "[?W] \<noteq> []" by simp
  have h6: "shape ?X = (?dims ! 0, Suc (Suc 0))" and h7: "shape ?Y = (?dims ! length [?W], Suc (Suc 0))"
    by (simp_all add: shape_def)
  have u2: "[0..<Suc (Suc 0)] = [0, Suc 0]" and u1: "[0..<Suc 0] = [0]"
    by (simp_all add: upt_rec)
  note ev = mat_times_def plus_bias_def sigma_def amap_def sigma_elem_def hadamard_def lossPrime_def
    sigmaPrime_def transpose_nd_def ones_def mk_def el_def u1 u2
  have g: "gradWeights [?W] (trace_z [?W] [?b] x) (trace_a [?W] [?b] x) y (Suc 0) =
             mat_times (hadamard (lossPrime (sigma (plus_bias (mat_times ?W x) ?b)) y)
                          (sigmaPrime (plus_bias (mat_times ?W x) ?b))) (transpose_nd x)"
    "gradBiases [?W] (trace_z [?W] [?b] x) (trace_a [?W] [?b] x) y (Suc 0) =
             mat_times (hadamard (lossPrime (sigma (plus_bias (mat_times ?W x) ?b)) y)
                          (sigmaPrime (plus_bias (mat_times ?W x) ?b))) (ones (ncols y) 1)"
    for x y
    unfolding gradWeights_def gradBiases_def
    by (subst delta.simps, simp add: trace_a_def trace_z_def weighted_input_def u1 upt_rec)+
  have c: "column 0 ?X = NDArray (Suc 0) (Suc 0) [[2]]" "column (Suc 0) ?X = NDArray (Suc 0) (Suc 0) [[2]]"
    "column 0 ?Y = NDArray (Suc 0) (Suc 0) [[0]]" "column (Suc 0) ?Y = NDArray (Suc 0) (Suc 0) [[- 1 / 2]]"
    by (simp_all add: column_def mk_def el_def u1)
  have l1: "[1..<Suc (length [?W])] = [Suc 0]"
    by (simp add: upt_rec)
  have v: "gradWeights [?W] (trace_z [?W] [?b] ?X) (trace_a [?W] [?b] ?X) ?Y (Suc 0) =
             NDArray (Suc 0) (Suc 0) [[3 / 4]]"
    "gradBiases [?W] (trace_z [?W] [?b] ?X) (trace_a [?W] [?b] ?X) ?Y (Suc 0) =
             NDArray (Suc 0) (Suc 0) [[3 / 8]]"
    unfolding g by (simp_all add: ev)
  have v0: "gradWeights [?W] (trace_z [?W] [?b] (column 0 ?X)) (trace_a [?W] [?b] (column 0 ?X))
              (column 0 ?Y) (Suc 0) = NDArray (Suc 0) (Suc 0) [[1 / 4]]"
    "gradBiases [?W] (trace_z [?W] [?b] (column 0 ?X)) (trace_a [?W] [?b] (column 0 ?X))
              (column 0 ?Y) (Suc 0) = NDArray (Suc 0) (Suc 0) [[1 / 8]]"
    unfolding g c by (simp_all add: ev)
  have v1: "gradWeights [?W] (trace_z [?W] [?b] (column (Suc 0) ?X)) (trace_a [?W] [?b] (column (Suc 0) ?X))
              (column (Suc 0) ?Y) (Suc 0) = NDArray (Suc 0) (Suc 0) [[1 / 2]]"
    "gradBiases [?W] (trace_z [?W] [?b] (column (Suc 0) ?X)) (trace_a [?W] [?b] (column (Suc 0) ?X))
              (column (Suc 0) ?Y) (Suc 0) = NDArray (Suc 0) (Suc 0) [[1 / 4]]"
    unfolding g c by (simp_all add: ev)
  have cx: "shape (column j ?X) = (?dims ! 0, 1)" "shape (column j ?Y) = (?dims ! length [?W], 1)" for j
    by simp_all
  note batch = stored_forward_backward [OF h1 h2 h3 h4 h5 h6 h7]
  note col = stored_forward_backward [OF h1 h2 h3 h4 h5 cx]
  have s: "stored ''grad_weights'' (forward_backward ?X ?Y ?m) = [NDArray (Suc 0) (Suc 0) [[3 / 4]]]"
    "stored ''grad_biases'' (forward_backward ?X ?Y ?m) = [NDArray (Suc 0) (Suc 0) [[3 / 8]]]"
    unfolding batch(4,5) l1 by (simp_all only: list.map v)
  have s0: "stored ''grad_weights'' (forward_backward (column 0 ?X) (column 0 ?Y) ?m) =
              [NDArray (Suc 0) (Suc 0) [[1 / 4]]]"
    "stored ''grad_biases'' (forward_backward (column 0 ?X) (column 0 ?Y) ?m) =
              [NDArray (Suc 0) (Suc 0) [[1 / 8]]]"
    unfolding col(4,5) l1 by (simp_all only: list.map v0)
  have s1: "stored ''grad_weights'' (forward_backward (column (Suc 0) ?X) (column (Suc 0) ?Y) ?m) =
              [NDArray (Suc 0) (Suc 0) [[1 / 2]]]"
    "stored ''grad_biases'' (forward_backward (column (Suc 0) ?X) (column (Suc 0) ?Y) ?m) =
              [NDArray (Suc 0) (Suc 0) [[1 / 4]]]"
    unfolding col(4,5) l1 by (simp_all only: list.map v1)
  note r = batch_gradient_is_sum [OF h1 h2 h3 h4 h5 h6 h7]
  from r have a: "\<not> isl (forward_backward ?X ?Y ?m)"
    by (rule conjunct1)
  from r have "\<forall>l<length [?W].
             stored ''grad_weights'' (forward_backward ?X ?Y ?m) ! l =
               array_sum (?dims ! Suc l) (?dims ! l)
                 (map (\<lambda>j. stored ''grad_weights''
                              (forward_backward (column j ?X) (column j ?Y) ?m) ! l) [0..<Suc (Suc 0)])"
    by blast
  then have "stored ''grad_weights'' (forward_backward ?X ?Y ?m) ! 0 =
               array_sum (?dims ! Suc 0) (?dims ! 0)
                 (map (\<lambda>j. stored ''grad_weights''
                              (forward_backward (column j ?X) (column j ?Y) ?m) ! 0) [0..<Suc (Suc 0)])"
    by simp
  then have t: "stored ''grad_weights'' (forward_backward ?X ?Y ?m) ! 0 =
       array_sum (Suc 0) (Suc 0)
         [stored ''grad_weights'' (forward_backward (column 0 ?X) (column 0 ?Y) ?m) ! 0,
          stored ''grad_weights'' (forward_backward (column (Suc 0) ?X) (column (Suc 0) ?Y) ?m) ! 0]"
    unfolding u2 by simp
  show ?thesis
    unfolding One_nat_def numeral_2_eq_2
    by (intro conjI) (fact h3 h4 h6 a s s0 s1 t)+
qed

text \<open>
  C6, as the notebook computes it, in float64.  \<open>sigma\<close> is exactly 1/2 at 0.  Every value
  of \<open>sigma\<close> lies in the closed interval from 0 to 1.  At \<open>v \<ge> 0\<close> it is the logistic
  formula \<open>1 / (1 + exp (- v))\<close> with each operation rounded.  At every \<open>v\<close> the value at
  \<open>- v\<close> is the float64 difference \<open>1 - sigma v\<close>, so the test \<open>sigma(-x) == 1 - sigma(x)\<close>
  succeeds.  \<open>sigma_prime\<close> is \<open>sigma v * (1 - sigma v)\<close> with each operation rounded, and is
  never negative.
\<close>

theorem sigma_float64:
  "sigma_f64 0 = 1 / 2
   \<and> 0 \<le> sigma_f64 v \<and> sigma_f64 v \<le> 1
   \<and> (0 \<le> v \<longrightarrow> sigma_f64 v = fl (1 / fl (1 + fl (exp (- v)))))
   \<and> sigma_f64 (- v) = fl (1 - sigma_f64 v)
   \<and> sigma_prime_f64 v = fl (sigma_f64 v * fl (1 - sigma_f64 v))
   \<and> 0 \<le> sigma_prime_f64 v"
proof (intro conjI impI)
  show "sigma_f64 0 = 1 / 2" by (rule sigma_f64_zero)
  show "0 \<le> sigma_f64 v" "sigma_f64 v \<le> 1"
    using sigma_f64_bounds [of v] by simp_all
  show "sigma_f64 v = fl (1 / fl (1 + fl (exp (- v))))" if "0 \<le> v"
    using that by (simp add: sigma_f64_def)
  show "sigma_f64 (- v) = fl (1 - sigma_f64 v)"
    by (rule sigma_f64_symmetric)
  show "sigma_prime_f64 v = fl (sigma_f64 v * fl (1 - sigma_f64 v))"
    by (simp add: sigma_prime_f64_def)
  show "0 \<le> sigma_prime_f64 v" by (rule sigma_prime_f64_nonneg)
qed

theorem sigma_float64_witness:
  "(0::real) \<le> 37 \<and> sigma_f64 37 = fl (1 / fl (1 + fl (exp (- 37)))) \<and> sigma_f64 37 = 1
   \<and> sigma_f64 (- 37) = 0 \<and> sigma_prime_f64 37 = 0"
proof -
  have "sigma_f64 37 = fl (1 / fl (1 + fl (exp (- 37))))"
    and "sigma_f64 (- 37) = fl (1 - sigma_f64 37)"
    and "sigma_prime_f64 37 = fl (sigma_f64 37 * fl (1 - sigma_f64 37))"
    using sigma_float64 [of 37] by simp_all
  then show ?thesis
    by (simp add: sigma_f64_37 fl_def)
qed

text \<open>
  The claim C6 as it is written, with values strictly between 0 and 1, fails in float64:
  at 37 the sum \<open>1 + exp (- 37)\<close> rounds to 1, so \<open>sigma\<close> is exactly 1 there and exactly 0
  at \<open>- 37\<close>.  (In exact arithmetic the claim holds: \<open>sigma_exact_logistic\<close>.)
\<close>

theorem sigma_saturates_counterexample:
  "\<not> sigma_f64 37 < 1 \<and> \<not> 0 < sigma_f64 (- 37)"
  by (simp add: sigma_f64_37 sigma_f64_minus_37)

text \<open>
  C7.  For arrays \<open>yhat\<close> and \<open>y\<close> of equal shape, \<open>loss\<close> is half the sum, over all rows and
  all batch columns, of the squared differences, so \<open>loss y y\<close> is 0; \<open>loss_prime\<close> is the
  entrywise difference \<open>yhat - y\<close>; and each entry of \<open>loss_prime yhat y\<close> is the derivative of
  the loss with respect to that entry of \<open>yhat\<close>.
\<close>

theorem loss_correct:
  assumes "shape yhat = shape y"
  shows "loss yhat y = Inr (0.5 * (\<Sum>i<nrows y. \<Sum>j<ncols y. (el yhat i j - el y i j)\<^sup>2))
       \<and> loss y y = Inr 0
       \<and> loss_prime yhat y = Inr (mk (nrows y) (ncols y) (\<lambda>i j. el yhat i j - el y i j))
       \<and> (\<forall>i<nrows y. \<forall>j<ncols y.
             ((\<lambda>t. projr (loss (mk (nrows y) (ncols y) ((el yhat)(i := (el yhat i)(j := t)))) y))
                has_real_derivative el (projr (loss_prime yhat y)) i j) (at (el yhat i j)))"
proof -
  have "shape y = (nrows y, ncols y)" by (simp add: shape_def)
  then have d: "\<forall>i<nrows y. \<forall>j<ncols y.
             ((\<lambda>t. projr (loss (mk (nrows y) (ncols y) ((el yhat)(i := (el yhat i)(j := t)))) y))
                has_real_derivative (el yhat i j - el y i j)) (at (el yhat i j))"
    using loss_partial_derivative [of y "nrows y" "ncols y" _ _ "el yhat"] by blast
  have z: "loss y y = Inr 0"
    by (simp add: loss_value)
  from assms d z show ?thesis
    by (simp add: loss_value loss_prime_value)
qed

theorem loss_correct_witness:
  "shape (mk 1 2 (\<lambda>i j. 3)) = shape (mk 1 2 (\<lambda>i j. 1))
   \<and> loss (mk 1 2 (\<lambda>i j. 3)) (mk 1 2 (\<lambda>i j. 1)) = Inr 4
   \<and> loss_prime (mk 1 2 (\<lambda>i j. 3)) (mk 1 2 (\<lambda>i j. 1)) = Inr (mk 1 2 (\<lambda>i j. 2))"
proof -
  let ?A = "mk 1 2 (\<lambda>i j. 3)" and ?B = "mk 1 2 (\<lambda>i j. 1)"
  have h: "shape ?A = shape ?B" by simp
  from loss_correct [OF h]
  have a: "loss ?A ?B = Inr (0.5 * (\<Sum>i<nrows ?B. \<Sum>j<ncols ?B. (el ?A i j - el ?B i j)\<^sup>2))"
    and c: "loss_prime ?A ?B = Inr (mk (nrows ?B) (ncols ?B) (\<lambda>i j. el ?A i j - el ?B i j))"
    by blast+
  have two: "{..<2::nat} = {0, 1}" by auto
  have "0.5 * (\<Sum>i<nrows ?B. \<Sum>j<ncols ?B. (el ?A i j - el ?B i j)\<^sup>2) = 4"
    by (simp add: two)
  moreover have "mk (nrows ?B) (ncols ?B) (\<lambda>i j. el ?A i j - el ?B i j) = mk 1 2 (\<lambda>i j. 2)"
    by (simp add: mk_eq_iff)
  ultimately show ?thesis using h a c by simp
qed




text \<open>
  C9.  On a model without \<open>'activations'\<close> or without \<open>'z_inputs'\<close>, \<open>backward\<close> raises, and on a
  model without \<open>'grad_weights'\<close> or without \<open>'grad_biases'\<close>, \<open>update\<close> raises.  In both cases
  the dictionary is, when the exception leaves the function, the one that was passed in:
  nothing has been written, so weights and biases are unchanged.
\<close>

theorem missing_trace_fails:
  "(model ''activations'' = None \<or> model ''z_inputs'' = None
      \<longrightarrow> (\<exists>e. backward y model = Inl (e, model)))
   \<and> (model ''grad_weights'' = None \<or> model ''grad_biases'' = None
      \<longrightarrow> (\<exists>e. update eta model = Inl (e, model)))"
proof (intro conjI impI)
  assume "model ''activations'' = None \<or> model ''z_inputs'' = None"
  from backward_grads_no_trace [OF this, of y]
  show "\<exists>e. backward y model = Inl (e, model)"
    by (auto simp: backward_def)
next
  assume "model ''grad_weights'' = None \<or> model ''grad_biases'' = None"
  from update_params_no_gradients [OF this, of eta]
  show "\<exists>e. update eta model = Inl (e, model)"
    by (auto simp: update_def)
qed

theorem missing_trace_fails_witness:
  "backward (mk 1 1 (\<lambda>i j. 0)) [''weights'' \<mapsto> PList [], ''biases'' \<mapsto> PList []] =
     Inl (KeyError, [''weights'' \<mapsto> PList [], ''biases'' \<mapsto> PList []])
   \<and> update 1 [''weights'' \<mapsto> PList [], ''biases'' \<mapsto> PList []] =
     Inl (KeyError, [''weights'' \<mapsto> PList [], ''biases'' \<mapsto> PList []])"
proof -
  let ?m = "[''weights'' \<mapsto> PList [], ''biases'' \<mapsto> PList []]"
  have a: "?m ''activations'' = None \<or> ?m ''z_inputs'' = None" by simp
  have g: "?m ''grad_weights'' = None \<or> ?m ''grad_biases'' = None" by simp
  from missing_trace_fails [of ?m "mk 1 1 (\<lambda>i j. 0)" 1] a g
  obtain e1 e2 where "backward (mk 1 1 (\<lambda>i j. 0)) ?m = Inl (e1, ?m)" "update 1 ?m = Inl (e2, ?m)"
    by blast
  moreover have "backward (mk 1 1 (\<lambda>i j. 0)) ?m = Inl (KeyError, ?m)"
    by (simp add: backward_def backward_grads_def)
  moreover have "update 1 ?m = Inl (KeyError, ?m)"
    by (simp add: update_def update_params_def)
  ultimately show ?thesis by simp
qed

text \<open>
  C10.  For a one-element list of dimensions \<open>initialize_model\<close> returns a model with
  \<open>'nlayers'\<close> 0 and empty lists of weights and biases, and \<open>forward\<close> on that model returns
  its input \<open>x\<close> unchanged, with \<open>'activations'\<close> the list \<open>[x]\<close> and \<open>'z_inputs'\<close> the empty list.
\<close>

theorem zero_layer_model:
  "initialize_model [n] g =
     Inr ([''weights'' \<mapsto> PList [], ''biases'' \<mapsto> PList [], ''nlayers'' \<mapsto> PInt 0], g)
   \<and> forward x [''weights'' \<mapsto> PList [], ''biases'' \<mapsto> PList [], ''nlayers'' \<mapsto> PInt 0] =
     Inr (x, [''weights'' \<mapsto> PList [], ''biases'' \<mapsto> PList [], ''nlayers'' \<mapsto> PInt 0,
              ''activations'' \<mapsto> PList [x], ''z_inputs'' \<mapsto> PList []])"
  by (simp add: initialize_model_def forward_def forward_trace_def)

end
